theory Spec2Isabelle
  imports Complex_Main "HOL-Library.AList"
begin

section \<open>JavaScript numbers\<close>

text \<open>
  The feedback-loop engine (class \<open>SwarmFeedbackLoops\<close>) computes with JavaScript
  numbers. They are modelled as exact reals extended by the three non-finite values a
  division can produce; rounding and the sign of zero are not modelled. Metric values,
  thresholds and random draws are finite reals; a quotient is a \<open>jsnum\<close>, so that a
  division by zero is the value JavaScript returns and not HOL's \<open>x / 0 = 0\<close>.
  Decimal constants of the source (\<open>0.7\<close>, \<open>0.1\<close>, ...) are the exact fractions.

  So a number the code computes can differ from the model's in its last bits: the code
  rounds every sum, product and quotient to a double, as in
  \<open>(0.7 + 0.7 + 0.7) / 3 = 0.6999999999999998\<close>, and the model does not. And the
  model has one zero: a limit \<open>-0\<close> is the limit \<open>0\<close> here, while the code divides
  by it to the infinity of the other sign.
\<close>

datatype jsnum = Finite real | PosInfinity | NegInfinity | NaN

fun js_div :: "jsnum \<Rightarrow> jsnum \<Rightarrow> jsnum" where
  "js_div (Finite a) (Finite b) =
     (if b \<noteq> 0 then Finite (a / b)
      else if 0 < a then PosInfinity else if a < 0 then NegInfinity else NaN)"
| "js_div (Finite a) PosInfinity = Finite 0"
| "js_div (Finite a) NegInfinity = Finite 0"
| "js_div PosInfinity (Finite b) = (if 0 \<le> b then PosInfinity else NegInfinity)"
| "js_div NegInfinity (Finite b) = (if 0 \<le> b then NegInfinity else PosInfinity)"
| "js_div _ _ = NaN"

fun js_add :: "jsnum \<Rightarrow> jsnum \<Rightarrow> jsnum" where
  "js_add (Finite a) (Finite b) = Finite (a + b)"
| "js_add NaN _ = NaN"
| "js_add _ NaN = NaN"
| "js_add PosInfinity NegInfinity = NaN"
| "js_add NegInfinity PosInfinity = NaN"
| "js_add PosInfinity _ = PosInfinity"
| "js_add _ PosInfinity = PosInfinity"
| "js_add NegInfinity _ = NegInfinity"
| "js_add _ NegInfinity = NegInfinity"

fun js_neg :: "jsnum \<Rightarrow> jsnum" where
  "js_neg (Finite a) = Finite (- a)"
| "js_neg PosInfinity = NegInfinity"
| "js_neg NegInfinity = PosInfinity"
| "js_neg NaN = NaN"

definition js_sub :: "jsnum \<Rightarrow> jsnum \<Rightarrow> jsnum" where
  "js_sub a b = js_add a (js_neg b)"

fun js_mul :: "jsnum \<Rightarrow> jsnum \<Rightarrow> jsnum" where
  "js_mul (Finite a) (Finite b) = Finite (a * b)"
| "js_mul NaN _ = NaN"
| "js_mul _ NaN = NaN"
| "js_mul PosInfinity (Finite b) =
     (if 0 < b then PosInfinity else if b < 0 then NegInfinity else NaN)"
| "js_mul NegInfinity (Finite b) =
     (if 0 < b then NegInfinity else if b < 0 then PosInfinity else NaN)"
| "js_mul (Finite a) PosInfinity =
     (if 0 < a then PosInfinity else if a < 0 then NegInfinity else NaN)"
| "js_mul (Finite a) NegInfinity =
     (if 0 < a then NegInfinity else if a < 0 then PosInfinity else NaN)"
| "js_mul PosInfinity PosInfinity = PosInfinity"
| "js_mul NegInfinity NegInfinity = PosInfinity"
| "js_mul PosInfinity NegInfinity = NegInfinity"
| "js_mul NegInfinity PosInfinity = NegInfinity"

text \<open>Comparisons: every comparison with \<open>NaN\<close> is false.\<close>

fun js_lt :: "jsnum \<Rightarrow> jsnum \<Rightarrow> bool" where
  "js_lt (Finite a) (Finite b) = (a < b)"
| "js_lt NaN _ = False"
| "js_lt _ NaN = False"
| "js_lt _ NegInfinity = False"
| "js_lt PosInfinity _ = False"
| "js_lt NegInfinity _ = True"
| "js_lt _ PosInfinity = True"

fun js_ge :: "jsnum \<Rightarrow> jsnum \<Rightarrow> bool" where
  "js_ge (Finite a) (Finite b) = (b \<le> a)"
| "js_ge NaN _ = False"
| "js_ge _ NaN = False"
| "js_ge PosInfinity _ = True"
| "js_ge _ NegInfinity = True"
| "js_ge NegInfinity _ = False"
| "js_ge _ PosInfinity = False"

text \<open>\<open>Math.min\<close> of two numbers: \<open>NaN\<close> if either is.\<close>

fun js_min :: "jsnum \<Rightarrow> jsnum \<Rightarrow> jsnum" where
  "js_min NaN _ = NaN"
| "js_min _ NaN = NaN"
| "js_min a b = (if js_lt b a then b else a)"

section \<open>The threshold evaluator\<close>

datatype error = TypeError | UnknownMetric string | StrategyError string

text \<open>
  A \<open>throw\<close> can raise any value. Every \<open>catch\<close> block of the class reads the
  property \<open>message\<close> of what it caught, and that read itself throws a \<open>TypeError\<close>
  when the value is \<open>null\<close> or \<open>undefined\<close>. So a thrown value is one of these two
  (\<open>Nullish\<close>), or a value whose properties can be read: an error object, for one.
\<close>

datatype thrown = Nullish | Thrown error

datatype severity = High | Medium | Low

datatype status = Excellent | Good | Fair | Poor

record issue =
  metric :: string
  val :: real
  threshold :: real
  severity :: severity

text \<open>
  A recommendation carries a formatted message in the source (\<open>toFixed\<close>); the model
  keeps its type, metric and severity. The field \<open>improvements\<close> of an analysis is
  created empty and never written or read; it is left out.
\<close>

datatype recommendation = IssueResolution string severity | GeneralImprovement

record analysis =
  overall :: status
  issues :: "issue list"
  score :: jsnum
  recommendations :: "recommendation list"

text \<open>
  A metrics object is the list of its entries in insertion order, \<open>None\<close> for
  \<open>null\<close>. A threshold table is the list of its entries; a lookup that finds nothing
  is \<open>undefined\<close>. (Property names are metric names: none is an integer index, none
  is inherited from \<open>Object.prototype\<close>.)
\<close>

type_synonym metrics = "(string \<times> real option) list"

type_synonym thresholds = "(string \<times> real) list"

definition isHigherBetterMetric :: "string \<Rightarrow> bool" where
  "isHigherBetterMetric metricName =
     (metricName \<in> set [''throughput'', ''learning_velocity'', ''pattern_recognition'',
        ''adaptation_success'', ''task_distribution'', ''agent_efficiency'',
        ''memory_utilization'', ''retrieval_accuracy'', ''storage_efficiency'',
        ''idea_quality'', ''implementation_success'', ''user_satisfaction''])"

definition calculateSeverity :: "real \<Rightarrow> real \<Rightarrow> bool \<Rightarrow> severity" where
  "calculateSeverity v t higherIsBetter =
     (let ratio = (if higherIsBetter then js_div (Finite v) (Finite t)
                   else js_div (Finite t) (Finite v))
      in if js_lt ratio (Finite (1/2)) then High
         else if js_lt ratio (Finite (4/5)) then Medium
         else Low)"

text \<open>
  One pass of the loop body of \<open>analyzeMetrics\<close> for a metric that has a value and a
  threshold: its score and the issue it pushes, if any.
\<close>

definition metricScore :: "string \<Rightarrow> real \<Rightarrow> real \<Rightarrow> jsnum" where
  "metricScore metricName v t =
     (if isHigherBetterMetric metricName
      then (if t \<le> v then Finite 1 else js_div (Finite v) (Finite t))
      else (if v \<le> t then Finite 1 else js_div (Finite t) (Finite v)))"

definition metricIssues :: "string \<Rightarrow> real \<Rightarrow> real \<Rightarrow> issue list" where
  "metricIssues metricName v t =
     (let higherIsBetter = isHigherBetterMetric metricName
      in if higherIsBetter
         then (if v < t
               then [\<lparr>metric = metricName, val = v, threshold = t,
                      severity = calculateSeverity v t higherIsBetter\<rparr>]
               else [])
         else (if t < v
               then [\<lparr>metric = metricName, val = v, threshold = t,
                      severity = calculateSeverity v t higherIsBetter\<rparr>]
               else []))"

text \<open>
  The loop over \<open>Object.entries(metrics)\<close>. The accumulator is
  \<open>(totalScore, metricCount, issues)\<close>. Reading a threshold out of an undefined table
  (a loop registered without \<open>threshold\<close>) throws a \<open>TypeError\<close>.
\<close>

fun scoreEntries ::
  "thresholds option \<Rightarrow> metrics \<Rightarrow> jsnum \<times> nat \<times> issue list
     \<Rightarrow> error + (jsnum \<times> nat \<times> issue list)" where
  "scoreEntries ths [] acc = Inr acc"
| "scoreEntries ths ((metricName, None) # es) acc = scoreEntries ths es acc"
| "scoreEntries ths ((metricName, Some v) # es) (totalScore, metricCount, iss) =
     (case ths of
        None \<Rightarrow> Inl TypeError
      | Some tab \<Rightarrow>
          (case map_of tab metricName of
             None \<Rightarrow> scoreEntries ths es (totalScore, metricCount, iss)
           | Some t \<Rightarrow>
               scoreEntries ths es
                 (js_add totalScore (metricScore metricName v t),
                  Suc metricCount,
                  iss @ metricIssues metricName v t)))"

definition overallStatus :: "jsnum \<Rightarrow> status" where
  "overallStatus s =
     (if js_ge s (Finite (9/10)) then Excellent
      else if js_ge s (Finite (7/10)) then Good
      else if js_ge s (Finite (1/2)) then Fair
      else Poor)"

definition generateRecommendations :: "issue list \<Rightarrow> jsnum \<Rightarrow> recommendation list" where
  "generateRecommendations iss s =
     map (\<lambda>i. IssueResolution (metric i) (severity i)) iss
     @ (if js_lt s (Finite (4/5)) then [GeneralImprovement] else [])"

definition analyzeMetrics :: "thresholds option \<Rightarrow> metrics \<Rightarrow> error + analysis" where
  "analyzeMetrics ths ms =
     (case scoreEntries ths ms (Finite 0, 0, []) of
        Inl e \<Rightarrow> Inl e
      | Inr (totalScore, metricCount, iss) \<Rightarrow>
          (let s = (if 0 < metricCount then js_div totalScore (Finite (real metricCount))
                    else Finite 0)
           in Inr \<lparr>overall = overallStatus s, issues = iss, score = s,
                    recommendations = generateRecommendations iss s\<rparr>))"

section \<open>Loops and adaptation\<close>

record loop_config =
  config_metrics :: "string list"
  interval :: nat
  config_threshold :: "thresholds option"
  adaptation :: string
  priority :: string

record strategy =
  strategy_name :: string
  strategy_target :: string
  strategy_severity :: severity
  expectedImprovement :: real

datatype adaptation_priority = PCritical | PHigh | PMedium | PLow

record adaptation =
  adaptation_type :: string
  adaptation_target :: string
  adaptation_issues :: "issue list"
  strategies :: "strategy list"
  adaptation_priority :: adaptation_priority
  expectedImpact :: jsnum
  adaptation_timestamp :: int

record attempt =
  attempt_adaptation :: adaptation
  attempt_timestamp :: int
  attempt_successRate :: real
  strategiesExecuted :: nat
  totalStrategies :: nat

record performance =
  averageExecutionTime :: real
  successRate :: real
  improvementRate :: real

datatype loop_state = Inactive | Active

text \<open>
  \<open>loop.metrics\<close> is a \<open>Map\<close> from the time of collection to the metrics collected:
  the list of its entries in insertion order, written with \<open>AList.update\<close> (a \<open>set\<close>
  on a key that is present replaces its value in place).
\<close>

record loop =
  name :: string
  config :: loop_config
  state :: loop_state
  lastExecution :: "int option"
  executionCount :: nat
  improvementCount :: nat
  metrics :: "(int \<times> metrics) list"
  adaptations :: "attempt list"
  performance :: performance
  intervalId :: "nat option"

record improvement =
  improvement_timestamp :: int
  improvement_loop :: string
  beforeScore :: jsnum
  improvement_adaptation :: string
  strategiesApplied :: nat
  improvement_expectedImpact :: jsnum

record realTimeMetrics =
  responseTime :: real
  throughput :: real
  errorRate :: real
  adaptationRate :: real
  learningVelocity :: real

subsection \<open>Collecting metrics\<close>

text \<open>
  \<open>getMetricValue\<close>: the table of metric calculators. \<open>rnd\<close> is the draw of
  \<open>Math.random()\<close>; a name the lookup does not find throws an \<open>Error\<close> object. The
  table is an object literal, so the lookup also finds the names every object inherits
  from \<open>Object.prototype\<close> (\<open>toString\<close>, \<open>constructor\<close>, \<open>valueOf\<close>, ...) and
  calls what it found: for such a name nothing is thrown here and the value is not a
  number. As said for the metrics object, metric names are taken outside these inherited
  names; the definition describes the other names only, and no property below samples an
  inherited name.
\<close>

definition getMetricValue :: "real \<Rightarrow> realTimeMetrics \<Rightarrow> string \<Rightarrow> thrown + real" where
  "getMetricValue rnd rtm metricName =
     (if metricName = ''response_time'' then Inr (responseTime rtm + rnd * 500)
      else if metricName = ''throughput'' then Inr (throughput rtm + rnd * 20)
      else if metricName = ''error_rate''
        then Inr (max 0 (errorRate rtm + (rnd * (2/100) - 1/100)))
      else if metricName = ''learning_velocity'' then Inr (rnd * (3/10) + 7/10)
      else if metricName = ''pattern_recognition'' then Inr (rnd * (2/10) + 8/10)
      else if metricName = ''adaptation_success'' then Inr (rnd * (4/10) + 6/10)
      else if metricName = ''task_distribution'' then Inr (rnd * (3/10) + 7/10)
      else if metricName = ''agent_efficiency'' then Inr (rnd * (25/100) + 75/100)
      else if metricName = ''communication_latency'' then Inr (rnd * 300 + 200)
      else if metricName = ''memory_utilization'' then Inr (rnd * (2/10) + 6/10)
      else if metricName = ''retrieval_accuracy'' then Inr (rnd * (1/10) + 9/10)
      else if metricName = ''storage_efficiency'' then Inr (rnd * (3/10) + 7/10)
      else if metricName = ''idea_quality'' then Inr (rnd * (3/10) + 7/10)
      else if metricName = ''implementation_success'' then Inr (rnd * (2/10) + 8/10)
      else if metricName = ''user_satisfaction'' then Inr (rnd * (15/100) + 85/100)
      else Inl (Thrown (UnknownMetric metricName)))"

text \<open>
  \<open>collectMetrics\<close>, over any metric source \<open>get\<close>. When the source throws, the
  \<open>catch\<close> block first logs \<open>error.message\<close> and then leaves \<open>null\<close> under the
  metric's name, and the loop goes on; when the thrown value is \<open>null\<close> or
  \<open>undefined\<close> the log throws a \<open>TypeError\<close>, which leaves \<open>collectMetrics\<close>.
  Assigning a property that exists keeps its place among the entries.
\<close>

fun collectInto ::
  "(string \<Rightarrow> thrown + real) \<Rightarrow> string list \<Rightarrow> metrics \<Rightarrow> thrown + metrics" where
  "collectInto get [] ms = Inr ms"
| "collectInto get (metricName # rest) ms =
     (case get metricName of
        Inr v \<Rightarrow> collectInto get rest (AList.update metricName (Some v) ms)
      | Inl Nullish \<Rightarrow> Inl (Thrown TypeError)
      | Inl (Thrown err) \<Rightarrow> collectInto get rest (AList.update metricName None ms))"

definition collectMetrics ::
  "(string \<Rightarrow> thrown + real) \<Rightarrow> string list \<Rightarrow> thrown + metrics" where
  "collectMetrics get metricNames = collectInto get metricNames []"

subsection \<open>Deciding on adaptation\<close>

definition getRecentMetrics :: "loop \<Rightarrow> nat \<Rightarrow> (int \<times> metrics) list" where
  "getRecentMetrics l count = take count (sort_key (\<lambda>e. - fst e) (metrics l))"

definition calculateAverageScore :: "metrics \<Rightarrow> real" where
  "calculateAverageScore ms =
     (let vals = List.map_filter snd ms
      in if 0 < length vals then sum_list vals / real (length vals) else 0)"

definition calculateTrend :: "(int \<times> metrics) list \<Rightarrow> jsnum" where
  "calculateTrend recentMetrics =
     (if length recentMetrics < 2 then Finite 0
      else
        (let first = last recentMetrics;
             lst = hd recentMetrics;
             firstScore = calculateAverageScore (snd first);
             lastScore = calculateAverageScore (snd lst)
         in js_div (Finite (lastScore - firstScore)) (Finite firstScore)))"

definition needsAdaptation :: "loop \<Rightarrow> analysis \<Rightarrow> bool" where
  "needsAdaptation l a =
     (if js_lt (score a) (Finite (7/10)) then True
      else if 0 < length (filter (\<lambda>i. severity i = High) (issues a)) then True
      else
        (let recentMetrics = getRecentMetrics l 5
         in if 3 \<le> length recentMetrics
            then (if js_lt (calculateTrend recentMetrics) (Finite (- (1/10))) then True
                  else False)
            else False))"

subsection \<open>Generating an adaptation\<close>

definition calculateAdaptationPriority :: "analysis \<Rightarrow> adaptation_priority" where
  "calculateAdaptationPriority a =
     (if js_lt (score a) (Finite (1/2)) then PCritical
      else if js_lt (score a) (Finite (7/10)) then PHigh
      else if js_lt (score a) (Finite (85/100)) then PMedium
      else PLow)"

definition estimateAdaptationImpact :: "analysis \<Rightarrow> jsnum" where
  "estimateAdaptationImpact a =
     js_min (Finite (3/10)) (js_mul (js_sub (Finite 1) (score a)) (Finite (1/2)))"

definition baseImpact :: "(string \<times> real) list" where
  "baseImpact =
     [(''optimize_response_time'', 2/10), (''increase_parallel_processing'', 15/100),
      (''reduce_error_rate'', 25/100), (''enhance_pattern_recognition'', 1/10),
      (''accelerate_learning'', 15/100), (''improve_task_distribution'', 1/10),
      (''enhance_communication'', 5/100), (''optimize_memory_usage'', 1/10),
      (''improve_retrieval'', 15/100)]"

definition estimateStrategyImpact :: "string \<Rightarrow> issue \<Rightarrow> real" where
  "estimateStrategyImpact strategyName i =
     (let impact = (case map_of baseImpact strategyName of Some b \<Rightarrow> b | None \<Rightarrow> 5/100);
          severityMultiplier =
            (if severity i = High then 15/10 else if severity i = Medium then 12/10 else 1)
      in impact * severityMultiplier)"

definition strategyMap :: "(string \<times> (string \<times> string list) list) list" where
  "strategyMap =
     [(''performance_optimization'',
        [(''response_time'', [''optimize_response_time'', ''increase_parallel_processing'']),
         (''throughput'', [''increase_parallel_processing'', ''optimize_resource_allocation'']),
         (''error_rate'', [''reduce_error_rate'', ''improve_error_handling''])]),
      (''learning_optimization'',
        [(''learning_velocity'', [''accelerate_learning'', ''optimize_algorithms'']),
         (''pattern_recognition'', [''enhance_pattern_recognition'', ''improve_data_quality''])]),
      (''coordination_optimization'',
        [(''task_distribution'', [''improve_task_distribution'', ''enhance_load_balancing'']),
         (''communication_latency'', [''enhance_communication'', ''optimize_protocols''])]),
      (''memory_optimization'',
        [(''memory_utilization'', [''optimize_memory_usage'', ''improve_garbage_collection'']),
         (''retrieval_accuracy'', [''improve_retrieval'', ''enhance_indexing''])]),
      (''innovation_enhancement'',
        [(''idea_quality'', [''enhance_creativity'', ''improve_brainstorming'']),
         (''implementation_success'', [''improve_implementation'', ''enhance_testing''])])]"

definition generateStrategiesForIssue :: "issue \<Rightarrow> string \<Rightarrow> strategy list" where
  "generateStrategiesForIssue i adaptationType =
     (let names =
            (case map_of strategyMap adaptationType of
               None \<Rightarrow> []
             | Some byMetric \<Rightarrow>
                 (case map_of byMetric (metric i) of None \<Rightarrow> [] | Some ns \<Rightarrow> ns))
      in map (\<lambda>n. \<lparr>strategy_name = n, strategy_target = metric i,
                    strategy_severity = severity i,
                    expectedImprovement = estimateStrategyImpact n i\<rparr>) names)"

definition generalStrategies :: "(string \<times> string list) list" where
  "generalStrategies =
     [(''performance_optimization'', [''general_performance_tuning'']),
      (''learning_optimization'', [''enhance_learning_algorithms'']),
      (''coordination_optimization'', [''improve_coordination_protocols'']),
      (''memory_optimization'', [''optimize_memory_management'']),
      (''innovation_enhancement'', [''enhance_innovation_processes''])]"

definition generateGeneralStrategies :: "string \<Rightarrow> strategy list" where
  "generateGeneralStrategies adaptationType =
     (let names = (case map_of generalStrategies adaptationType of None \<Rightarrow> [] | Some ns \<Rightarrow> ns)
      in map (\<lambda>n. \<lparr>strategy_name = n, strategy_target = ''general'',
                    strategy_severity = Medium, expectedImprovement = 1/10\<rparr>) names)"

definition generateAdaptation :: "int \<Rightarrow> loop \<Rightarrow> analysis \<Rightarrow> adaptation" where
  "generateAdaptation now l a =
     (let adaptationType = adaptation (config l)
      in \<lparr>adaptation_type = adaptationType,
          adaptation_target = name l,
          adaptation_issues = issues a,
          strategies =
            concat (map (\<lambda>i. generateStrategiesForIssue i adaptationType) (issues a))
            @ generateGeneralStrategies adaptationType,
          adaptation_priority = calculateAdaptationPriority a,
          expectedImpact = estimateAdaptationImpact a,
          adaptation_timestamp = now\<rparr>)"

subsection \<open>Applying an adaptation\<close>

text \<open>
  \<open>executeAdaptationStrategy\<close>: the table of strategy executors of the class. A known
  strategy acts on the real-time metrics and returns \<open>true\<close>, an unknown one returns
  \<open>false\<close>. The result type has room for a throw, since \<open>applyAdaptation\<close> calls the
  executor under \<open>try\<close>; this executor never throws. (Strategy names are those of
  the generator's tables, none inherited from \<open>Object.prototype\<close>.)
\<close>

definition executeAdaptationStrategy ::
  "strategy \<Rightarrow> realTimeMetrics \<Rightarrow> (thrown + bool) \<times> realTimeMetrics" where
  "executeAdaptationStrategy s rtm =
     (let n = strategy_name s
      in if n = ''increase_parallel_processing''
           then (Inr True, rtm\<lparr>throughput := throughput rtm * (11/10)\<rparr>)
         else if n = ''optimize_response_time''
           then (Inr True, rtm\<lparr>responseTime := responseTime rtm * (9/10)\<rparr>)
         else if n = ''reduce_error_rate''
           then (Inr True, rtm\<lparr>errorRate := errorRate rtm * (8/10)\<rparr>)
         else if n = ''enhance_pattern_recognition'' then (Inr True, rtm)
         else if n = ''accelerate_learning''
           then (Inr True, rtm\<lparr>learningVelocity := learningVelocity rtm * (115/100)\<rparr>)
         else if n = ''improve_task_distribution'' then (Inr True, rtm)
         else if n = ''enhance_communication'' then (Inr True, rtm)
         else if n = ''optimize_memory_usage'' then (Inr True, rtm)
         else if n = ''improve_retrieval'' then (Inr True, rtm)
         else if n = ''enhance_creativity'' then (Inr True, rtm)
         else if n = ''improve_implementation'' then (Inr True, rtm)
         else (Inr False, rtm))"

text \<open>
  The loop of \<open>applyAdaptation\<close> over the strategies, for any executor \<open>exec\<close>. When
  a strategy throws, the \<open>catch\<close> block logs \<open>error.message\<close> and the strategy adds
  nothing to \<open>successCount\<close>; when the thrown value is \<open>null\<close> or \<open>undefined\<close> the
  log throws a \<open>TypeError\<close>, which leaves \<open>applyAdaptation\<close> before the attempt is
  recorded. What the strategies run so far did to the real-time metrics stays done.
\<close>

fun runStrategies ::
  "(strategy \<Rightarrow> realTimeMetrics \<Rightarrow> (thrown + bool) \<times> realTimeMetrics) \<Rightarrow> strategy list
     \<Rightarrow> nat \<times> realTimeMetrics \<Rightarrow> (thrown + nat) \<times> realTimeMetrics" where
  "runStrategies exec [] (successCount, rtm) = (Inr successCount, rtm)"
| "runStrategies exec (s # ss) (successCount, rtm) =
     (case exec s rtm of
        (Inr success, rtm') \<Rightarrow>
          runStrategies exec ss (if success then Suc successCount else successCount, rtm')
      | (Inl Nullish, rtm') \<Rightarrow> (Inl (Thrown TypeError), rtm')
      | (Inl (Thrown err), rtm') \<Rightarrow> runStrategies exec ss (successCount, rtm'))"

definition applyAdaptation ::
  "(strategy \<Rightarrow> realTimeMetrics \<Rightarrow> (thrown + bool) \<times> realTimeMetrics) \<Rightarrow> int
     \<Rightarrow> loop \<Rightarrow> adaptation \<Rightarrow> realTimeMetrics
     \<Rightarrow> (thrown + bool) \<times> loop \<times> realTimeMetrics" where
  "applyAdaptation exec now l ad rtm =
     (let total = length (strategies ad)
      in case runStrategies exec (strategies ad) (0, rtm) of
           (Inl t, rtm') \<Rightarrow> (Inl t, l, rtm')
         | (Inr successCount, rtm') \<Rightarrow>
             (let rate = (if 0 < total then real successCount / real total else 0);
                  l' = l\<lparr>adaptations := adaptations l @
                         [\<lparr>attempt_adaptation = ad, attempt_timestamp = now,
                           attempt_successRate = rate, strategiesExecuted = successCount,
                           totalStrategies = total\<rparr>]\<rparr>
              in (Inr (1/2 < rate), l', rtm')))"

definition recordImprovement ::
  "int \<Rightarrow> loop \<Rightarrow> adaptation \<Rightarrow> analysis \<Rightarrow> improvement list \<Rightarrow> improvement list" where
  "recordImprovement now l ad a hist =
     (let h = hist @
            [\<lparr>improvement_timestamp = now, improvement_loop = name l,
              beforeScore = score a, improvement_adaptation = adaptation_type ad,
              strategiesApplied = length (strategies ad),
              improvement_expectedImpact = expectedImpact ad\<rparr>]
      in if 100 < length h then drop (length h - 100) h else h)"

definition updateLoopPerformance :: "loop \<Rightarrow> int \<Rightarrow> bool \<Rightarrow> loop" where
  "updateLoopPerformance l executionTime success =
     (let perf = performance l;
          count = real (executionCount l);
          successCount = successRate perf * count + (if success then 1 else 0)
      in l\<lparr>performance :=
            \<lparr>averageExecutionTime =
               (averageExecutionTime perf * count + real_of_int executionTime) / (count + 1),
             successRate = successCount / (count + 1),
             improvementRate = real (improvementCount l) / (count + 1)\<rparr>\<rparr>)"

subsection \<open>One cycle\<close>

text \<open>
  What a cycle reads from outside the loop: the metric source and the strategy executor
  (the methods \<open>getMetricValue\<close> and \<open>executeAdaptationStrategy\<close>, which may be
  overridden and may throw), and the readings of \<open>Date.now()\<close> in the order the cycle
  takes them.
\<close>

record env =
  getMetric :: "realTimeMetrics \<Rightarrow> string \<Rightarrow> thrown + real"
  runStrategy :: "strategy \<Rightarrow> realTimeMetrics \<Rightarrow> (thrown + bool) \<times> realTimeMetrics"
  now_start :: int
  now_metrics :: int
  now_generate :: int
  now_apply :: int
  now_record :: int
  now_end :: int
  now_last :: int

text \<open>
  How a call of \<open>executeLoop\<close> ends: it emitted \<open>loopExecuted\<close>, or it emitted
  \<open>loopError\<close> from its \<open>catch\<close> block, or it emitted nothing because a throw left
  the \<open>catch\<close> block itself and the promise of the call was rejected.
\<close>

datatype event =
    LoopExecuted string metrics analysis bool int
  | LoopError string error
  | Rejected error

text \<open>
  The \<open>catch\<close> block of \<open>executeLoop\<close>: it logs \<open>error.message\<close>, which throws on
  \<open>null\<close> and \<open>undefined\<close>, and emits \<open>loopError\<close>.
\<close>

definition loopFailed :: "loop \<Rightarrow> thrown \<Rightarrow> event" where
  "loopFailed l t = (case t of Nullish \<Rightarrow> Rejected TypeError | Thrown err \<Rightarrow> LoopError (name l) err)"

text \<open>
  \<open>executeLoop\<close>. The cycle runs on the loop object, the improvement history and the
  real-time metrics, with the threshold table registered under the loop's name. A throw
  of \<open>collectMetrics\<close>, of \<open>analyzeMetrics\<close> or of \<open>applyAdaptation\<close> ends the
  \<open>try\<close> block where it stands; what the block changed before the throw stays changed.
\<close>

definition executeLoop ::
  "env \<Rightarrow> thresholds option \<Rightarrow> loop \<Rightarrow> improvement list \<Rightarrow> realTimeMetrics
     \<Rightarrow> event \<times> loop \<times> improvement list \<times> realTimeMetrics" where
  "executeLoop e ths l hist rtm =
     (let startTime = now_start e
      in case collectMetrics (getMetric e rtm) (config_metrics (config l)) of
           Inl t \<Rightarrow> (loopFailed l t, l, hist, rtm)
         | Inr ms \<Rightarrow>
             (let l1 = l\<lparr>metrics := AList.update (now_metrics e) ms (metrics l)\<rparr>
              in case analyzeMetrics ths ms of
                   Inl err \<Rightarrow> (loopFailed l (Thrown err), l1, hist, rtm)
                 | Inr a \<Rightarrow>
                     (let adaptationNeeded = needsAdaptation l1 a
                      in case (if adaptationNeeded
                               then (let ad = generateAdaptation (now_generate e) l1 a
                                     in case applyAdaptation (runStrategy e) (now_apply e)
                                               l1 ad rtm of
                                          (Inl t, l', rtm') \<Rightarrow> Inl (t, l', rtm')
                                        | (Inr success, l', rtm') \<Rightarrow>
                                            Inr (if success
                                                 then (l'\<lparr>improvementCount :=
                                                             Suc (improvementCount l')\<rparr>,
                                                       recordImprovement (now_record e) l' ad a
                                                         hist,
                                                       rtm')
                                                 else (l', hist, rtm')))
                               else Inr (l1, hist, rtm)) of
                           Inl (t, l', rtm') \<Rightarrow> (loopFailed l t, l', hist, rtm')
                         | Inr (l2, hist2, rtm2) \<Rightarrow>
                             (let executionTime = now_end e - startTime;
                                  l3 = updateLoopPerformance l2 executionTime
                                         (\<not> adaptationNeeded \<or> adaptationNeeded);
                                  l4 = l3\<lparr>executionCount := Suc (executionCount l3),
                                          lastExecution := Some (now_last e)\<rparr>
                              in (LoopExecuted (name l) ms a adaptationNeeded executionTime,
                                  l4, hist2, rtm2)))))"

section \<open>The supervisor\<close>

text \<open>
  The state of a \<open>SwarmFeedbackLoops\<close> instance. Loop objects live in \<open>heap\<close> and
  are named by their index there: the registry \<open>activeLoops\<close> and the callback of a
  timer both hold a reference to a loop object, and a reference once given out is valid
  for ever (objects are never freed while a timer holds them). \<open>timers\<close> is the set of
  pending intervals of the host, each with the callback \<open>setInterval\<close> was given.
\<close>

datatype timer = LoopTimer nat | MetricsTimer

record supervisor =
  activeLoops :: "(string \<times> nat) list"
  performanceThresholds :: "(string \<times> thresholds option) list"
  improvementHistory :: "improvement list"
  realTimeMetrics :: realTimeMetrics
  isRunning :: bool
  metricsInterval :: "nat option"
  heap :: "loop list"
  timers :: "(nat \<times> timer) list"
  nextTimer :: nat

definition setInterval :: "timer \<Rightarrow> supervisor \<Rightarrow> nat \<times> supervisor" where
  "setInterval cb s =
     (nextTimer s, s\<lparr>timers := timers s @ [(nextTimer s, cb)], nextTimer := Suc (nextTimer s)\<rparr>)"

definition clearInterval :: "nat \<Rightarrow> supervisor \<Rightarrow> supervisor" where
  "clearInterval tid s = s\<lparr>timers := AList.delete tid (timers s)\<rparr>"

definition createFeedbackLoop :: "string \<Rightarrow> loop_config \<Rightarrow> supervisor \<Rightarrow> nat \<times> supervisor" where
  "createFeedbackLoop nm cfg s =
     (let l = \<lparr>name = nm, config = cfg, state = Inactive, lastExecution = None,
                executionCount = 0, improvementCount = 0, metrics = [], adaptations = [],
                performance = \<lparr>averageExecutionTime = 0, successRate = 0,
                                improvementRate = 0\<rparr>,
                intervalId = None\<rparr>;
          r = length (heap s)
      in (r, s\<lparr>heap := heap s @ [l],
                activeLoops := AList.update nm r (activeLoops s),
                performanceThresholds :=
                  AList.update nm (config_threshold cfg) (performanceThresholds s)\<rparr>))"

definition startLoop :: "nat \<Rightarrow> supervisor \<Rightarrow> supervisor" where
  "startLoop r s =
     (if r < length (heap s)
      then (if state (heap s ! r) = Active then s
            else (let (tid, s') = setInterval (LoopTimer r) s
                  in s'\<lparr>heap := (heap s')[r := (heap s' ! r)\<lparr>state := Active,
                                                           intervalId := Some tid\<rparr>]\<rparr>))
      else s)"

definition stopLoop :: "nat \<Rightarrow> supervisor \<Rightarrow> supervisor" where
  "stopLoop r s =
     (if r < length (heap s)
      then (if state (heap s ! r) = Inactive then s
            else (let s1 = s\<lparr>heap := (heap s)[r := (heap s ! r)\<lparr>state := Inactive\<rparr>]\<rparr>
                  in case intervalId (heap s1 ! r) of
                       None \<Rightarrow> s1
                     | Some tid \<Rightarrow>
                         (let s2 = clearInterval tid s1
                          in s2\<lparr>heap := (heap s2)[r := (heap s2 ! r)\<lparr>intervalId := None\<rparr>]\<rparr>)))
      else s)"

definition startRealTimeMetrics :: "supervisor \<Rightarrow> supervisor" where
  "startRealTimeMetrics s =
     (let (tid, s') = setInterval MetricsTimer s in s'\<lparr>metricsInterval := Some tid\<rparr>)"

definition start :: "supervisor \<Rightarrow> supervisor" where
  "start s =
     (if isRunning s then s
      else (let s1 = s\<lparr>isRunning := True\<rparr>;
                s2 = fold startLoop (map snd (activeLoops s1)) s1
            in startRealTimeMetrics s2))"

definition stop :: "supervisor \<Rightarrow> supervisor" where
  "stop s =
     (if \<not> isRunning s then s
      else (let s1 = s\<lparr>isRunning := False\<rparr>
            in fold stopLoop (map snd (activeLoops s1)) s1))"

subsection \<open>Timers firing\<close>

definition calculateAdaptationRate :: "int \<Rightarrow> improvement list \<Rightarrow> nat" where
  "calculateAdaptationRate now hist =
     length (filter (\<lambda>imp. now - improvement_timestamp imp < 60000) hist)"

text \<open>
  The callback of the real-time metrics interval; \<open>r1\<close>, ..., \<open>r4\<close> are its draws of
  \<open>Math.random()\<close> and \<open>now\<close> its reading of the clock.
\<close>

definition updateRealTimeMetrics ::
  "real \<Rightarrow> real \<Rightarrow> real \<Rightarrow> real \<Rightarrow> int \<Rightarrow> supervisor \<Rightarrow> supervisor" where
  "updateRealTimeMetrics r1 r2 r3 r4 now s =
     (let m = realTimeMetrics s;
          m1 = m\<lparr>responseTime := responseTime m + (r1 - 1/2) * 100,
                 throughput := throughput m + (r2 - 1/2) * 2,
                 errorRate := errorRate m + (r3 - 1/2) * (1/1000),
                 adaptationRate := real (calculateAdaptationRate now (improvementHistory s)),
                 learningVelocity := learningVelocity m + (r4 - 1/2) * (1/10)\<rparr>
      in s\<lparr>realTimeMetrics :=
             m1\<lparr>responseTime := max 100 (min 5000 (responseTime m1)),
                throughput := max 1 (min 100 (throughput m1)),
                errorRate := max 0 (min (2/10) (errorRate m1)),
                learningVelocity := max (1/10) (min 1 (learningVelocity m1))\<rparr>\<rparr>)"

text \<open>
  The callback of a loop's interval: \<open>executeLoop\<close> on the loop object the callback
  holds, with the thresholds registered under that loop's name at the time of the call.
\<close>

definition runLoop :: "env \<Rightarrow> nat \<Rightarrow> supervisor \<Rightarrow> supervisor" where
  "runLoop e r s =
     (if r < length (heap s)
      then (let l = heap s ! r;
                ths = (case map_of (performanceThresholds s) (name l) of
                         None \<Rightarrow> None | Some t \<Rightarrow> t);
                (ev, l', hist', rtm') =
                  executeLoop e ths l (improvementHistory s) (realTimeMetrics s)
            in s\<lparr>heap := (heap s)[r := l'], improvementHistory := hist',
                  realTimeMetrics := rtm'\<rparr>)
      else s)"

text \<open>
  The host fires the interval \<open>tid\<close>. An interval that was cleared, or never set, does
  not fire: the state is unchanged.
\<close>

record tick =
  tick_env :: env
  tick_r1 :: real
  tick_r2 :: real
  tick_r3 :: real
  tick_r4 :: real
  tick_now :: int

definition fire :: "nat \<Rightarrow> tick \<Rightarrow> supervisor \<Rightarrow> supervisor" where
  "fire tid t s =
     (case map_of (timers s) tid of
        None \<Rightarrow> s
      | Some (LoopTimer r) \<Rightarrow> runLoop (tick_env t) r s
      | Some MetricsTimer \<Rightarrow>
          updateRealTimeMetrics (tick_r1 t) (tick_r2 t) (tick_r3 t) (tick_r4 t) (tick_now t) s)"

subsection \<open>The constructor\<close>

definition initializeDefaultLoops :: "supervisor \<Rightarrow> supervisor" where
  "initializeDefaultLoops s =
     (let s1 = snd (createFeedbackLoop ''performance''
                 \<lparr>config_metrics = [''response_time'', ''throughput'', ''error_rate''],
                  interval = 5000,
                  config_threshold = Some [(''response_time'', 2000), (''throughput'', 10),
                                           (''error_rate'', 5/100)],
                  adaptation = ''performance_optimization'', priority = ''high''\<rparr> s);
          s2 = snd (createFeedbackLoop ''learning''
                 \<lparr>config_metrics = [''learning_velocity'', ''pattern_recognition'',
                                    ''adaptation_success''],
                  interval = 10000,
                  config_threshold = Some [(''learning_velocity'', 7/10),
                                           (''pattern_recognition'', 8/10),
                                           (''adaptation_success'', 6/10)],
                  adaptation = ''learning_optimization'', priority = ''medium''\<rparr> s1);
          s3 = snd (createFeedbackLoop ''coordination''
                 \<lparr>config_metrics = [''task_distribution'', ''agent_efficiency'',
                                    ''communication_latency''],
                  interval = 15000,
                  config_threshold = Some [(''task_distribution'', 8/10),
                                           (''agent_efficiency'', 75/100),
                                           (''communication_latency'', 500)],
                  adaptation = ''coordination_optimization'', priority = ''high''\<rparr> s2);
          s4 = snd (createFeedbackLoop ''memory''
                 \<lparr>config_metrics = [''memory_utilization'', ''retrieval_accuracy'',
                                    ''storage_efficiency''],
                  interval = 20000,
                  config_threshold = Some [(''memory_utilization'', 8/10),
                                           (''retrieval_accuracy'', 9/10),
                                           (''storage_efficiency'', 7/10)],
                  adaptation = ''memory_optimization'', priority = ''medium''\<rparr> s3)
      in snd (createFeedbackLoop ''innovation''
                 \<lparr>config_metrics = [''idea_quality'', ''implementation_success'',
                                    ''user_satisfaction''],
                  interval = 30000,
                  config_threshold = Some [(''idea_quality'', 7/10),
                                           (''implementation_success'', 8/10),
                                           (''user_satisfaction'', 85/100)],
                  adaptation = ''innovation_enhancement'', priority = ''medium''\<rparr> s4))"

definition newSwarmFeedbackLoops :: supervisor where
  "newSwarmFeedbackLoops =
     initializeDefaultLoops
       \<lparr>activeLoops = [], performanceThresholds = [], improvementHistory = [],
        realTimeMetrics = \<lparr>responseTime = 0, throughput = 0, errorRate = 0,
                            adaptationRate = 0, learningVelocity = 0\<rparr>,
        isRunning = False, metricsInterval = None, heap = [], timers = [], nextTimer = 0\<rparr>"

section \<open>Notions used to state the properties\<close>

text \<open>
  The metrics that have both a collected value and a configured threshold, in the order
  of the entries: name, value, threshold.
\<close>

fun matchedMetrics :: "thresholds \<Rightarrow> metrics \<Rightarrow> (string \<times> real \<times> real) list" where
  "matchedMetrics tab [] = []"
| "matchedMetrics tab ((metricName, None) # es) = matchedMetrics tab es"
| "matchedMetrics tab ((metricName, Some v) # es) =
     (case map_of tab metricName of
        None \<Rightarrow> matchedMetrics tab es
      | Some t \<Rightarrow> (metricName, v, t) # matchedMetrics tab es)"

text \<open>
  The sum of a list of numbers, added from the left to \<open>0\<close>, over their count;
  \<open>0\<close> for the empty list.
\<close>

definition js_mean :: "jsnum list \<Rightarrow> jsnum" where
  "js_mean xs =
     (if xs = [] then Finite 0
      else js_div (foldl js_add (Finite 0) xs) (Finite (real (length xs))))"

text \<open>
  The per-metric score and the severity as the specification words them, to be compared
  with \<open>metricScore\<close> and \<open>calculateSeverity\<close>.
\<close>

definition spec_metric_score :: "bool \<Rightarrow> real \<Rightarrow> real \<Rightarrow> real" where
  "spec_metric_score higherIsBetter v limit =
     (if higherIsBetter then min 1 (v / limit)
      else if v = 0 then 1 else min 1 (limit / v))"

definition spec_severity :: "real \<Rightarrow> severity" where
  "spec_severity s = (if s < 1/2 then High else if s < 4/5 then Medium else Low)"

text \<open>
  What the executor does on each strategy of a list in turn, every strategy run on the
  real-time metrics its predecessors left: the list of the outcomes, and the real-time
  metrics after the last one. This is the executor alone, with no \<open>catch\<close> and no
  counting.
\<close>

fun strategyOutcomes ::
  "(strategy \<Rightarrow> realTimeMetrics \<Rightarrow> (thrown + bool) \<times> realTimeMetrics) \<Rightarrow> strategy list
     \<Rightarrow> realTimeMetrics \<Rightarrow> (thrown + bool) list \<times> realTimeMetrics" where
  "strategyOutcomes exec [] rtm = ([], rtm)"
| "strategyOutcomes exec (s # ss) rtm =
     (case exec s rtm of
        (res, rtm') \<Rightarrow>
          (case strategyOutcomes exec ss rtm' of (rs, fin) \<Rightarrow> (res # rs, fin)))"

text \<open>
  The successful applications among them: the strategies whose execution returned
  \<open>true\<close>. The success rate as the specification words it: successful applications
  over total attempted, \<open>0\<close> for no strategy at all. And whether the execution of some
  strategy throws \<open>null\<close> or \<open>undefined\<close>.
\<close>

definition successfulApplications ::
  "(strategy \<Rightarrow> realTimeMetrics \<Rightarrow> (thrown + bool) \<times> realTimeMetrics) \<Rightarrow> strategy list
     \<Rightarrow> realTimeMetrics \<Rightarrow> nat" where
  "successfulApplications exec ss rtm =
     length (filter (\<lambda>res. res = Inr True) (fst (strategyOutcomes exec ss rtm)))"

definition spec_successRate ::
  "(strategy \<Rightarrow> realTimeMetrics \<Rightarrow> (thrown + bool) \<times> realTimeMetrics) \<Rightarrow> strategy list
     \<Rightarrow> realTimeMetrics \<Rightarrow> real" where
  "spec_successRate exec ss rtm =
     (if ss = [] then 0
      else real (successfulApplications exec ss rtm) / real (length ss))"

definition throwsNullish ::
  "(strategy \<Rightarrow> realTimeMetrics \<Rightarrow> (thrown + bool) \<times> realTimeMetrics) \<Rightarrow> strategy list
     \<Rightarrow> realTimeMetrics \<Rightarrow> bool" where
  "throwsNullish exec ss rtm = (Inl Nullish \<in> set (fst (strategyOutcomes exec ss rtm)))"

text \<open>
  The loop once a cycle has stored the metrics it collected, and the strategies of the
  adaptation the cycle generates from an analysis.
\<close>

definition storeMetrics :: "env \<Rightarrow> loop \<Rightarrow> metrics \<Rightarrow> loop" where
  "storeMetrics e l ms = l\<lparr>metrics := AList.update (now_metrics e) ms (metrics l)\<rparr>"

definition plannedStrategies :: "env \<Rightarrow> loop \<Rightarrow> metrics \<Rightarrow> analysis \<Rightarrow> strategy list" where
  "plannedStrategies e l ms a =
     strategies (generateAdaptation (now_generate e) (storeMetrics e l ms) a)"

text \<open>A cycle ran to its end: it emitted \<open>loopExecuted\<close>.\<close>

fun executed :: "event \<Rightarrow> bool" where
  "executed (LoopExecuted n ms a needed t) = True"
| "executed (LoopError n err) = False"
| "executed (Rejected err) = False"

text \<open>
  The states an instance can be in: the constructor's, and what the methods and the
  host's timers make of a state.
\<close>

inductive reachable :: "supervisor \<Rightarrow> bool" where
  constructed: "reachable newSwarmFeedbackLoops"
| created: "reachable s \<Longrightarrow> reachable (snd (createFeedbackLoop nm cfg s))"
| started: "reachable s \<Longrightarrow> reachable (start s)"
| stopped: "reachable s \<Longrightarrow> reachable (stop s)"
| loopStarted: "reachable s \<Longrightarrow> reachable (startLoop r s)"
| loopStopped: "reachable s \<Longrightarrow> reachable (stopLoop r s)"
| loopExecuted: "reachable s \<Longrightarrow> reachable (runLoop e r s)"
| timerFired: "reachable s \<Longrightarrow> reachable (fire tid t s)"

definition clean :: "loop \<Rightarrow> bool" where
  "clean l = (executionCount l = 0 \<or> successRate (performance l) = 1)"

definition all_clean :: "supervisor \<Rightarrow> bool" where
  "all_clean s = (\<forall>l \<in> set (heap s). clean l)"

text \<open>
  Every pending interval of a loop belongs to a loop object that is Active and has
  recorded it as its \<open>intervalId\<close>; and a loop object no pending interval refers to.
\<close>

definition timers_owned :: "supervisor \<Rightarrow> bool" where
  "timers_owned s =
     (\<forall>tid r. (tid, LoopTimer r) \<in> set (timers s) \<longrightarrow>
        r < length (heap s) \<and> state (heap s ! r) = Active
        \<and> intervalId (heap s ! r) = Some tid)"

definition silent :: "nat \<Rightarrow> supervisor \<Rightarrow> bool" where
  "silent r s = (\<forall>tid. (tid, LoopTimer r) \<notin> set (timers s))"

subsection \<open>Concrete inputs\<close>

text \<open>
  The environment of the class's own methods: every \<open>Math.random()\<close> of the cycle
  draws \<open>rnd\<close>, every \<open>Date.now()\<close> reads \<open>t\<close>.
\<close>

definition hostEnv :: "real \<Rightarrow> int \<Rightarrow> env" where
  "hostEnv rnd t =
     \<lparr>getMetric = getMetricValue rnd, runStrategy = executeAdaptationStrategy,
      now_start = t, now_metrics = t, now_generate = t, now_apply = t, now_record = t,
      now_end = t, now_last = t\<rparr>"

definition hostTick :: "real \<Rightarrow> int \<Rightarrow> tick" where
  "hostTick rnd t =
     \<lparr>tick_env = hostEnv rnd t, tick_r1 = rnd, tick_r2 = rnd, tick_r3 = rnd, tick_r4 = rnd,
      tick_now = t\<rparr>"




definition challenge_config :: loop_config where
  "challenge_config =
     \<lparr>config_metrics = [''response_time'', ''throughput'', ''error_rate''],
      interval = 1000,
      config_threshold = Some [(''response_time'', 1000), (''throughput'', 20),
                               (''error_rate'', 2/100)],
      adaptation = ''performance_optimization'', priority = ''high''\<rparr>"

definition latency_config :: loop_config where
  "latency_config =
     \<lparr>config_metrics = [''response_time''], interval = 1000,
      config_threshold = Some [(''response_time'', 1000)],
      adaptation = ''performance_optimization'', priority = ''high''\<rparr>"



text \<open>
  The loop \<open>latency\<close> in its third cycle, once the cycle has stored its sample: the
  response time was 450 in the first two cycles and is 200 now, against a limit of 1000.
\<close>

definition latency_loop :: loop where
  "latency_loop =
     \<lparr>name = ''latency'', config = latency_config, state = Active,
      lastExecution = Some 2000, executionCount = 2, improvementCount = 0,
      metrics = [(1000, [(''response_time'', Some 450)]),
                 (2000, [(''response_time'', Some 450)]),
                 (3000, [(''response_time'', Some 200)])],
      adaptations = [],
      performance = \<lparr>averageExecutionTime = 0, successRate = 1, improvementRate = 0\<rparr>,
      intervalId = Some 5\<rparr>"

text \<open>
  A fresh instance is started and \<open>performance\<close> is registered again while its loop
  runs.
\<close>

definition replaced_while_active :: supervisor where
  "replaced_while_active =
     snd (createFeedbackLoop ''performance'' challenge_config (start newSwarmFeedbackLoops))"

section \<open>The threshold evaluator: properties\<close>

lemma scoreEntries_Some:
  "scoreEntries (Some tab) ms (tot, cnt, iss) =
     Inr (foldl js_add tot (map (\<lambda>(n, v, t). metricScore n v t) (matchedMetrics tab ms)),
          cnt + length (matchedMetrics tab ms),
          iss @ concat (map (\<lambda>(n, v, t). metricIssues n v t) (matchedMetrics tab ms)))"
proof (induction ms arbitrary: tot cnt iss)
  case Nil
  show ?case by simp
next
  case (Cons e es)
  obtain n vo where e: "e = (n, vo)" by (cases e)
  show ?case
  proof (cases vo)
    case None
    with e Cons show ?thesis by simp
  next
    case (Some v)
    with e Cons show ?thesis by (cases "map_of tab n") simp_all
  qed
qed

lemma analyzeMetrics_Some:
  "analyzeMetrics (Some tab) ms =
     (let s = js_mean (map (\<lambda>(n, v, t). metricScore n v t) (matchedMetrics tab ms));
          iss = concat (map (\<lambda>(n, v, t). metricIssues n v t) (matchedMetrics tab ms))
      in Inr \<lparr>overall = overallStatus s, issues = iss, score = s,
               recommendations = generateRecommendations iss s\<rparr>)"
  by (simp add: analyzeMetrics_def scoreEntries_Some js_mean_def Let_def)

lemma metricScore_spec:
  assumes "0 \<le> v" and "0 < t"
  shows "metricScore n v t = Finite (spec_metric_score (isHigherBetterMetric n) v t)"
  using assms by (auto simp: metricScore_def spec_metric_score_def min_def field_simps)

lemma metricIssues_spec:
  assumes "0 \<le> v" and "0 < t"
  shows "metricIssues n v t =
     (if spec_metric_score (isHigherBetterMetric n) v t < 1
      then [\<lparr>metric = n, val = v, threshold = t,
             severity = spec_severity (spec_metric_score (isHigherBetterMetric n) v t)\<rparr>]
      else [])"
  using assms
  by (auto simp: metricIssues_def calculateSeverity_def spec_metric_score_def spec_severity_def
      min_def field_simps Let_def)

lemma metricIssues_fields:
  assumes "i \<in> set (metricIssues n v t)"
  shows "metric i = n \<and> val i = v \<and> threshold i = t"
  using assms by (auto simp: metricIssues_def Let_def split: if_splits)

lemma issues_of_matched:
  "i \<in> set (concat (map (\<lambda>(n, v, t). metricIssues n v t) xs))
     \<longleftrightarrow> (\<exists>(n, v, t) \<in> set xs. i \<in> set (metricIssues n v t))"
  by auto

lemma issue_at_matched:
  assumes "(n, v, t) \<in> set xs"
  shows "(\<exists>i \<in> set (concat (map (\<lambda>(n, v, t). metricIssues n v t) xs)).
            metric i = n \<and> val i = v \<and> threshold i = t)
         \<longleftrightarrow> metricIssues n v t \<noteq> []"
proof
  assume "\<exists>i \<in> set (concat (map (\<lambda>(n, v, t). metricIssues n v t) xs)).
            metric i = n \<and> val i = v \<and> threshold i = t"
  then obtain i n' v' t' where i: "metric i = n" "val i = v" "threshold i = t"
    and m: "(n', v', t') \<in> set xs" "i \<in> set (metricIssues n' v' t')"
    by (auto simp: issues_of_matched)
  from metricIssues_fields [OF m(2)] i have "n' = n" "v' = v" "t' = t" by auto
  with m(2) show "metricIssues n v t \<noteq> []" by auto
next
  assume "metricIssues n v t \<noteq> []"
  then obtain i where i: "i \<in> set (metricIssues n v t)" by (cases "metricIssues n v t") auto
  with assms have "i \<in> set (concat (map (\<lambda>(n, v, t). metricIssues n v t) xs))"
    by (auto simp: issues_of_matched)
  with metricIssues_fields [OF i]
  show "\<exists>i \<in> set (concat (map (\<lambda>(n, v, t). metricIssues n v t) xs)).
            metric i = n \<and> val i = v \<and> threshold i = t" by blast
qed

lemma issue_in_own_metric:
  assumes "i \<in> set (concat (map (\<lambda>(n, v, t). metricIssues n v t) xs))"
  shows "i \<in> set (metricIssues (metric i) (val i) (threshold i))"
proof -
  from assms obtain n v t where m: "i \<in> set (metricIssues n v t)"
    by (auto simp: issues_of_matched)
  with metricIssues_fields [OF m] show ?thesis by simp
qed

lemmas evaluator_defs = analyzeMetrics_def metricScore_def metricIssues_def
  isHigherBetterMetric_def calculateSeverity_def overallStatus_def generateRecommendations_def


text \<open>
  C1 (as amended). For every metric that has a collected value and a configured
  threshold, with a value that is not negative and a limit that is positive, the score
  \<open>analyzeMetrics\<close> adds for it is \<open>min(1, value/limit)\<close> when higher is better and
  \<open>min(1, limit/value)\<close> when lower is better (\<open>1\<close> at value \<open>0\<close>); the metric is among
  the issues exactly when that score is below \<open>1\<close>, and its severity is High below
  \<open>0.5\<close>, Medium below \<open>0.8\<close> and Low otherwise.
\<close>

theorem metric_score_and_violation:
  assumes m: "(n, v, t) \<in> set (matchedMetrics tab ms)" and v: "0 \<le> v" and t: "0 < t"
  shows "\<exists>a. analyzeMetrics (Some tab) ms = Inr a
     \<and> metricScore n v t = Finite (spec_metric_score (isHigherBetterMetric n) v t)
     \<and> ((\<exists>i \<in> set (issues a). metric i = n \<and> val i = v \<and> threshold i = t)
          \<longleftrightarrow> spec_metric_score (isHigherBetterMetric n) v t < 1)
     \<and> (\<forall>i \<in> set (issues a). metric i = n \<and> val i = v \<and> threshold i = t
          \<longrightarrow> severity i = spec_severity (spec_metric_score (isHigherBetterMetric n) v t))"
proof -
  let ?xs = "matchedMetrics tab ms"
  let ?iss = "concat (map (\<lambda>(n, v, t). metricIssues n v t) ?xs)"
  let ?s = "spec_metric_score (isHigherBetterMetric n) v t"
  obtain a where a: "analyzeMetrics (Some tab) ms = Inr a" and ia: "issues a = ?iss"
    by (simp add: analyzeMetrics_Some Let_def)
  have sc: "metricScore n v t = Finite ?s" using v t by (rule metricScore_spec)
  have viol: "(\<exists>i \<in> set ?iss. metric i = n \<and> val i = v \<and> threshold i = t) \<longleftrightarrow> ?s < 1"
    using issue_at_matched [OF m] metricIssues_spec [OF v t, of n] by simp
  have sev: "severity i = spec_severity ?s"
    if "i \<in> set ?iss" and "metric i = n \<and> val i = v \<and> threshold i = t" for i
  proof -
    from issue_in_own_metric [OF that(1)] that(2) have "i \<in> set (metricIssues n v t)" by simp
    with metricIssues_spec [OF v t, of n] show ?thesis by (auto split: if_splits)
  qed
  from a ia sc viol sev show ?thesis by auto
qed

theorem metric_score_and_violation_witness:
  "(''response_time'', 2000, 1000) \<in> set (matchedMetrics [(''response_time'', 1000)]
        [(''response_time'', Some 2000)])
   \<and> (0::real) \<le> 2000 \<and> (0::real) < 1000
   \<and> metricScore ''response_time'' 2000 1000 = Finite (1/2)
   \<and> spec_metric_score (isHigherBetterMetric ''response_time'') 2000 1000 = 1/2
   \<and> (\<exists>a. analyzeMetrics (Some [(''response_time'', 1000)]) [(''response_time'', Some 2000)] = Inr a
        \<and> (\<exists>i \<in> set (issues a). metric i = ''response_time'' \<and> val i = 2000
               \<and> threshold i = 1000 \<and> severity i = Medium))"
proof -
  have m: "(''response_time'', 2000, 1000) \<in> set (matchedMetrics [(''response_time'', 1000)]
        [(''response_time'', Some 2000)])" by simp
  have s: "spec_metric_score (isHigherBetterMetric ''response_time'') 2000 1000 = 1/2"
    by (simp add: spec_metric_score_def isHigherBetterMetric_def)
  have sev: "spec_severity (1/2) = Medium" by (simp add: spec_severity_def)
  from metric_score_and_violation [OF m, unfolded s sev]
  show ?thesis using m s by fastforce
qed

text \<open>
  C1 as stated fails where a value or a limit is negative. A response time of \<open>-5\<close>
  against the limit \<open>1000\<close> scores \<open>1\<close> and is no issue, while \<open>min(1, limit/value)\<close> is
  \<open>-200\<close>. A throughput of \<open>-20\<close> against the limit \<open>-10\<close> scores \<open>2\<close> and is reported
  as an issue, while \<open>min(1, value/limit)\<close> is \<open>1\<close>.
\<close>

theorem metric_score_counterexample:
  "analyzeMetrics (Some [(''response_time'', 1000)]) [(''response_time'', Some (- 5))] =
       Inr \<lparr>overall = Excellent, issues = [], score = Finite 1, recommendations = []\<rparr>
   \<and> metricScore ''response_time'' (- 5) 1000 = Finite 1
   \<and> spec_metric_score (isHigherBetterMetric ''response_time'') (- 5) 1000 = - 200
   \<and> analyzeMetrics (Some [(''throughput'', - 10)]) [(''throughput'', Some (- 20))] =
       Inr \<lparr>overall = Excellent,
            issues = [\<lparr>metric = ''throughput'', val = - 20, threshold = - 10, severity = Low\<rparr>],
            score = Finite 2,
            recommendations = [IssueResolution ''throughput'' Low]\<rparr>
   \<and> metricScore ''throughput'' (- 20) (- 10) = Finite 2
   \<and> spec_metric_score (isHigherBetterMetric ''throughput'') (- 20) (- 10) = 1"
  by (simp add: evaluator_defs spec_metric_score_def)












text \<open>
  C3 (as amended). One threshold \<open>response_time\<close> with limit \<open>1000\<close> (lower is better)
  and one sample \<open>response_time = 2000\<close>: the overall score is \<open>0.5\<close>, there is exactly
  one issue, of severity Medium, and the status is \<open>fair\<close>.
\<close>

theorem latency_scenario:
  "analyzeMetrics (Some [(''response_time'', 1000)]) [(''response_time'', Some 2000)] =
     Inr \<lparr>overall = Fair,
          issues = [\<lparr>metric = ''response_time'', val = 2000, threshold = 1000,
                     severity = Medium\<rparr>],
          score = Finite (1/2),
          recommendations = [IssueResolution ''response_time'' Medium, GeneralImprovement]\<rparr>
   \<and> \<not> isHigherBetterMetric ''response_time''"
  by (simp add: evaluator_defs)

text \<open>C3 as stated fails: the status of that analysis is not \<open>poor\<close>.\<close>

theorem latency_scenario_counterexample:
  "overallStatus (Finite (1/2)) = Fair
   \<and> map_sum id overall
        (analyzeMetrics (Some [(''response_time'', 1000)]) [(''response_time'', Some 2000)])
       = Inr Fair
   \<and> map_sum id overall
        (analyzeMetrics (Some [(''response_time'', 1000)]) [(''response_time'', Some 2000)])
       \<noteq> Inr Poor"
  by (simp add: evaluator_defs)

section \<open>Deciding on adaptation: properties\<close>

lemma recent_latency:
  "getRecentMetrics latency_loop 5 =
     [(3000, [(''response_time'', Some 200)]), (2000, [(''response_time'', Some 450)]),
      (1000, [(''response_time'', Some 450)])]"
  by (simp add: getRecentMetrics_def latency_loop_def)

text \<open>
  C4. The claim takes the trend over the mean per-metric score of two analyses;
  \<open>calculateTrend\<close> takes it over the mean of the raw metric values of two stored
  samples. For the loop \<open>latency\<close> the response time falls from 450 to 200 against a
  limit of 1000: every analysis scores \<open>1\<close> with no issue, so the score is not below
  \<open>0.7\<close>, no issue is High and the trend of the scores is \<open>0\<close>; yet the trend the code
  computes is \<open>(200 - 450) / 450\<close>, below \<open>-0.1\<close>, and \<open>needsAdaptation\<close> answers
  \<open>true\<close>.
\<close>

theorem trend_reads_raw_values:
  "getRecentMetrics latency_loop 5 =
     [(3000, [(''response_time'', Some 200)]), (2000, [(''response_time'', Some 450)]),
      (1000, [(''response_time'', Some 450)])]
   \<and> analyzeMetrics (Some [(''response_time'', 1000)]) [(''response_time'', Some 450)] =
       Inr \<lparr>overall = Excellent, issues = [], score = Finite 1, recommendations = []\<rparr>
   \<and> analyzeMetrics (Some [(''response_time'', 1000)]) [(''response_time'', Some 200)] =
       Inr \<lparr>overall = Excellent, issues = [], score = Finite 1, recommendations = []\<rparr>
   \<and> calculateTrend (getRecentMetrics latency_loop 5) = Finite (- (5/9))
   \<and> needsAdaptation latency_loop
        \<lparr>overall = Excellent, issues = [], score = Finite 1, recommendations = []\<rparr>"
  by (simp add: recent_latency evaluator_defs calculateTrend_def calculateAverageScore_def
      needsAdaptation_def List.map_filter_def)

section \<open>One cycle: properties\<close>

lemma updateLoopPerformance_counts [simp]:
  "executionCount (updateLoopPerformance l t b) = executionCount l"
  "improvementCount (updateLoopPerformance l t b) = improvementCount l"
  "adaptations (updateLoopPerformance l t b) = adaptations l"
  "name (updateLoopPerformance l t b) = name l"
  "state (updateLoopPerformance l t b) = state l"
  "intervalId (updateLoopPerformance l t b) = intervalId l"
  by (simp_all add: updateLoopPerformance_def Let_def)

lemma updateLoopPerformance_successRate:
  assumes "executionCount l = 0 \<or> successRate (performance l) = 1"
  shows "successRate (performance (updateLoopPerformance l t True)) = 1"
  using assms by (auto simp: updateLoopPerformance_def Let_def)

lemma scoreEntries_None:
  assumes "scoreEntries None ms acc = Inl err"
  shows "err = TypeError"
  using assms
proof (induction ms arbitrary: acc)
  case Nil
  then show ?case by simp
next
  case (Cons e es)
  obtain n vo where e: "e = (n, vo)" by (cases e)
  obtain tot cnt iss where acc: "acc = (tot, cnt, iss)" by (cases acc)
  show ?case
  proof (cases vo)
    case None
    with e Cons show ?thesis by simp
  next
    case (Some v)
    with e acc Cons.prems show ?thesis by simp
  qed
qed

lemma analyzeMetrics_Inl:
  assumes "analyzeMetrics ths ms = Inl err"
  shows "err = TypeError \<and> ths = None"
proof (cases ths)
  case None
  with assms have "scoreEntries None ms (Finite 0, 0, []) = Inl err"
    by (auto simp: analyzeMetrics_def Let_def split: sum.splits)
  then have "err = TypeError" by (rule scoreEntries_None)
  with None show ?thesis by simp
next
  case (Some tab)
  with assms show ?thesis by (simp add: analyzeMetrics_Some Let_def)
qed

lemma collectInto_returns:
  assumes "\<forall>n \<in> set names. get n \<noteq> Inl Nullish"
  shows "\<exists>ms'. collectInto get names ms = Inr ms'
     \<and> set (map fst ms') = set (map fst ms) \<union> set names
     \<and> (distinct (map fst ms) \<longrightarrow> distinct (map fst ms'))
     \<and> (\<forall>n. map_of ms' n =
            (if n \<in> set names then Some (case get n of Inl t \<Rightarrow> None | Inr v \<Rightarrow> Some v)
             else map_of ms n))"
  using assms
proof (induction names arbitrary: ms)
  case Nil
  show ?case by simp
next
  case (Cons x xs)
  from Cons.prems have x: "get x \<noteq> Inl Nullish" and xs: "\<forall>n \<in> set xs. get n \<noteq> Inl Nullish"
    by simp_all
  define y where "y = (case get x of Inl t \<Rightarrow> None | Inr v \<Rightarrow> Some v)"
  have step: "collectInto get (x # xs) ms = collectInto get xs (AList.update x y ms)"
    using x by (auto simp: y_def split: sum.splits thrown.splits)
  from Cons.IH [OF xs, of "AList.update x y ms"] obtain ms' where
    r: "collectInto get xs (AList.update x y ms) = Inr ms'"
    and k: "set (map fst ms') = set (map fst (AList.update x y ms)) \<union> set xs"
    and d: "distinct (map fst (AList.update x y ms)) \<longrightarrow> distinct (map fst ms')"
    and m: "\<forall>n. map_of ms' n =
            (if n \<in> set xs then Some (case get n of Inl t \<Rightarrow> None | Inr v \<Rightarrow> Some v)
             else map_of (AList.update x y ms) n)"
    by blast
  have k': "set (map fst ms') = set (map fst ms) \<union> set (x # xs)"
    using k by (auto simp: update_keys)
  have d': "distinct (map fst ms) \<longrightarrow> distinct (map fst ms')"
    using d by (simp add: distinct_update)
  have m': "\<forall>n. map_of ms' n =
            (if n \<in> set (x # xs) then Some (case get n of Inl t \<Rightarrow> None | Inr v \<Rightarrow> Some v)
             else map_of ms n)"
    using m by (auto simp: update_conv' y_def)
  from step r k' d' m' show ?case by simp
qed

lemma collectInto_throws:
  assumes "\<exists>n \<in> set names. get n = Inl Nullish"
  shows "collectInto get names ms = Inl (Thrown TypeError)"
  using assms
proof (induction names arbitrary: ms)
  case Nil
  then show ?case by simp
next
  case (Cons x xs)
  show ?case
  proof (cases "get x = Inl Nullish")
    case True
    then show ?thesis by simp
  next
    case False
    with Cons.prems have "\<exists>n \<in> set xs. get n = Inl Nullish" by auto
    then have "\<And>ms'. collectInto get xs ms' = Inl (Thrown TypeError)" by (rule Cons.IH)
    with False show ?thesis by (auto split: sum.splits thrown.splits)
  qed
qed

lemma collectMetrics_cases:
  obtains (returns) ms where "collectMetrics get names = Inr ms"
      "\<forall>n \<in> set names. get n \<noteq> Inl Nullish"
    | (throws) "collectMetrics get names = Inl (Thrown TypeError)"
      "\<exists>n \<in> set names. get n = Inl Nullish"
proof (cases "\<exists>n \<in> set names. get n = Inl Nullish")
  case True
  from collectInto_throws [OF True, of "[]"] True throws show ?thesis
    by (simp add: collectMetrics_def)
next
  case False
  then have ok: "\<forall>n \<in> set names. get n \<noteq> Inl Nullish" by simp
  from collectInto_returns [OF ok, of "[]"] obtain ms where "collectInto get names [] = Inr ms"
    by blast
  with ok returns show ?thesis by (simp add: collectMetrics_def)
qed

lemma runStrategies_returns:
  assumes "\<not> throwsNullish exec ss rtm"
  shows "runStrategies exec ss (c, rtm) =
     (Inr (c + successfulApplications exec ss rtm), snd (strategyOutcomes exec ss rtm))"
  using assms
proof (induction ss arbitrary: c rtm)
  case Nil
  show ?case by (simp add: successfulApplications_def)
next
  case (Cons s ss)
  obtain res rtm1 where r: "exec s rtm = (res, rtm1)" by (cases "exec s rtm")
  obtain rs fin where o: "strategyOutcomes exec ss rtm1 = (rs, fin)"
    by (cases "strategyOutcomes exec ss rtm1")
  from Cons.prems r o have res: "res \<noteq> Inl Nullish" and rest: "\<not> throwsNullish exec ss rtm1"
    by (auto simp: throwsNullish_def)
  note ih = Cons.IH [OF rest]
  show ?case
  proof (cases res)
    case (Inr b)
    with r o ih [of "if b then Suc c else c"] show ?thesis
      by (simp add: successfulApplications_def)
  next
    case (Inl t)
    with res obtain err where "t = Thrown err" by (cases t) auto
    with Inl r o ih [of c] show ?thesis by (simp add: successfulApplications_def)
  qed
qed

lemma runStrategies_throws:
  assumes "throwsNullish exec ss rtm"
  shows "fst (runStrategies exec ss (c, rtm)) = Inl (Thrown TypeError)"
  using assms
proof (induction ss arbitrary: c rtm)
  case Nil
  then show ?case by (simp add: throwsNullish_def)
next
  case (Cons s ss)
  obtain res rtm1 where r: "exec s rtm = (res, rtm1)" by (cases "exec s rtm")
  obtain rs fin where o: "strategyOutcomes exec ss rtm1 = (rs, fin)"
    by (cases "strategyOutcomes exec ss rtm1")
  show ?case
  proof (cases "res = Inl Nullish")
    case True
    with r show ?thesis by simp
  next
    case False
    with Cons.prems r o have "throwsNullish exec ss rtm1" by (auto simp: throwsNullish_def)
    then have "\<And>c'. fst (runStrategies exec ss (c', rtm1)) = Inl (Thrown TypeError)"
      by (rule Cons.IH)
    with False r show ?thesis by (auto split: sum.splits thrown.splits)
  qed
qed

lemma applyAdaptation_returns:
  assumes "\<not> throwsNullish exec (strategies ad) rtm"
  shows "applyAdaptation exec now l ad rtm =
     (Inr (1/2 < spec_successRate exec (strategies ad) rtm),
      l\<lparr>adaptations := adaptations l @
           [\<lparr>attempt_adaptation = ad, attempt_timestamp = now,
             attempt_successRate = spec_successRate exec (strategies ad) rtm,
             strategiesExecuted = successfulApplications exec (strategies ad) rtm,
             totalStrategies = length (strategies ad)\<rparr>]\<rparr>,
      snd (strategyOutcomes exec (strategies ad) rtm))"
  using runStrategies_returns [OF assms, of 0]
  by (simp add: applyAdaptation_def spec_successRate_def Let_def)

lemma applyAdaptation_throws:
  assumes "throwsNullish exec (strategies ad) rtm"
  shows "\<exists>rtm'. applyAdaptation exec now l ad rtm = (Inl (Thrown TypeError), l, rtm')"
proof -
  obtain res rtm' where r: "runStrategies exec (strategies ad) (0, rtm) = (res, rtm')"
    by (cases "runStrategies exec (strategies ad) (0, rtm)")
  with runStrategies_throws [OF assms, of 0] have "res = Inl (Thrown TypeError)" by simp
  with r show ?thesis by (simp add: applyAdaptation_def Let_def)
qed

text \<open>The four ways a cycle can go, and what \<open>executeLoop\<close> returns in each.\<close>

lemma executeLoop_sampling_throws:
  assumes "collectMetrics (getMetric e rtm) (config_metrics (config l)) = Inl (Thrown TypeError)"
  shows "executeLoop e ths l hist rtm = (LoopError (name l) TypeError, l, hist, rtm)"
  using assms by (simp add: executeLoop_def loopFailed_def Let_def)

lemma executeLoop_analysis_throws:
  assumes "collectMetrics (getMetric e rtm) (config_metrics (config l)) = Inr ms"
    and "analyzeMetrics ths ms = Inl err"
  shows "executeLoop e ths l hist rtm = (LoopError (name l) err, storeMetrics e l ms, hist, rtm)"
  using assms by (simp add: executeLoop_def loopFailed_def storeMetrics_def Let_def)

lemma executeLoop_applying_throws:
  assumes "collectMetrics (getMetric e rtm) (config_metrics (config l)) = Inr ms"
    and "analyzeMetrics ths ms = Inr a"
    and "needsAdaptation (storeMetrics e l ms) a"
    and "throwsNullish (runStrategy e) (plannedStrategies e l ms a) rtm"
  shows "\<exists>rtm'. executeLoop e ths l hist rtm =
     (LoopError (name l) TypeError, storeMetrics e l ms, hist, rtm')"
proof -
  from applyAdaptation_throws [OF assms(4) [unfolded plannedStrategies_def]]
  obtain rtm' where "applyAdaptation (runStrategy e) (now_apply e) (storeMetrics e l ms)
      (generateAdaptation (now_generate e) (storeMetrics e l ms) a) rtm
      = (Inl (Thrown TypeError), storeMetrics e l ms, rtm')" by blast
  with assms(1-3) show ?thesis
    by (simp add: executeLoop_def loopFailed_def storeMetrics_def Let_def)
qed

lemma executeLoop_completes:
  assumes "collectMetrics (getMetric e rtm) (config_metrics (config l)) = Inr ms"
    and "analyzeMetrics ths ms = Inr a"
    and "needsAdaptation (storeMetrics e l ms) a
           \<longrightarrow> \<not> throwsNullish (runStrategy e) (plannedStrategies e l ms a) rtm"
    and "executeLoop e ths l hist rtm = (ev, l', hist', rtm')"
  shows "ev = LoopExecuted (name l) ms a (needsAdaptation (storeMetrics e l ms) a)
                (now_end e - now_start e)"
    and "executionCount l' = Suc (executionCount l)"
    and "successRate (performance l') =
           (successRate (performance l) * real (executionCount l) + 1) / (real (executionCount l) + 1)"
    and "improvementCount l' =
           (if needsAdaptation (storeMetrics e l ms) a
               \<and> 1/2 < spec_successRate (runStrategy e) (plannedStrategies e l ms a) rtm
            then Suc (improvementCount l) else improvementCount l)"
    and "adaptations l' =
           (if needsAdaptation (storeMetrics e l ms) a
            then adaptations l @
              [\<lparr>attempt_adaptation = generateAdaptation (now_generate e) (storeMetrics e l ms) a,
                attempt_timestamp = now_apply e,
                attempt_successRate =
                  spec_successRate (runStrategy e) (plannedStrategies e l ms a) rtm,
                strategiesExecuted =
                  successfulApplications (runStrategy e) (plannedStrategies e l ms a) rtm,
                totalStrategies = length (plannedStrategies e l ms a)\<rparr>]
            else adaptations l)"
    and "state l' = state l" and "intervalId l' = intervalId l"
proof -
  let ?l1 = "storeMetrics e l ms"
  let ?ad = "generateAdaptation (now_generate e) ?l1 a"
  have all: "ev = LoopExecuted (name l) ms a (needsAdaptation ?l1 a) (now_end e - now_start e)
    \<and> executionCount l' = Suc (executionCount l)
    \<and> successRate (performance l') =
           (successRate (performance l) * real (executionCount l) + 1) / (real (executionCount l) + 1)
    \<and> improvementCount l' =
           (if needsAdaptation ?l1 a
               \<and> 1/2 < spec_successRate (runStrategy e) (plannedStrategies e l ms a) rtm
            then Suc (improvementCount l) else improvementCount l)
    \<and> adaptations l' =
           (if needsAdaptation ?l1 a
            then adaptations l @
              [\<lparr>attempt_adaptation = ?ad, attempt_timestamp = now_apply e,
                attempt_successRate =
                  spec_successRate (runStrategy e) (plannedStrategies e l ms a) rtm,
                strategiesExecuted =
                  successfulApplications (runStrategy e) (plannedStrategies e l ms a) rtm,
                totalStrategies = length (plannedStrategies e l ms a)\<rparr>]
            else adaptations l)
    \<and> state l' = state l \<and> intervalId l' = intervalId l"
  proof (cases "needsAdaptation ?l1 a")
    case False
    with assms(1,2,4) show ?thesis
      by (auto simp: executeLoop_def storeMetrics_def updateLoopPerformance_def Let_def)
  next
    case True
    with assms(3) have "\<not> throwsNullish (runStrategy e) (strategies ?ad) rtm"
      by (simp add: plannedStrategies_def)
    note ap = applyAdaptation_returns [OF this, of "now_apply e" ?l1]
    from True assms(1,2,4) ap show ?thesis
      by (auto simp: executeLoop_def storeMetrics_def plannedStrategies_def
          updateLoopPerformance_def Let_def)
  qed
  from all show "ev = LoopExecuted (name l) ms a (needsAdaptation (storeMetrics e l ms) a)
                (now_end e - now_start e)" by blast
  from all show "executionCount l' = Suc (executionCount l)" by blast
  from all show "successRate (performance l') =
           (successRate (performance l) * real (executionCount l) + 1) / (real (executionCount l) + 1)"
    by blast
  from all show "improvementCount l' =
           (if needsAdaptation (storeMetrics e l ms) a
               \<and> 1/2 < spec_successRate (runStrategy e) (plannedStrategies e l ms a) rtm
            then Suc (improvementCount l) else improvementCount l)" by blast
  from all show "adaptations l' =
           (if needsAdaptation (storeMetrics e l ms) a
            then adaptations l @
              [\<lparr>attempt_adaptation = generateAdaptation (now_generate e) (storeMetrics e l ms) a,
                attempt_timestamp = now_apply e,
                attempt_successRate =
                  spec_successRate (runStrategy e) (plannedStrategies e l ms a) rtm,
                strategiesExecuted =
                  successfulApplications (runStrategy e) (plannedStrategies e l ms a) rtm,
                totalStrategies = length (plannedStrategies e l ms a)\<rparr>]
            else adaptations l)" by blast
  from all show "state l' = state l" by blast
  from all show "intervalId l' = intervalId l" by blast
qed

lemma executeLoop_cases:
  fixes e :: env and ths :: "thresholds option" and l :: loop and rtm :: realTimeMetrics
  obtains
    (sampling) "collectMetrics (getMetric e rtm) (config_metrics (config l)) = Inl (Thrown TypeError)"
  | (analysis) ms where "collectMetrics (getMetric e rtm) (config_metrics (config l)) = Inr ms"
      "analyzeMetrics ths ms = Inl TypeError" "ths = None"
  | (applying) ms a where "collectMetrics (getMetric e rtm) (config_metrics (config l)) = Inr ms"
      "analyzeMetrics ths ms = Inr a" "needsAdaptation (storeMetrics e l ms) a"
      "throwsNullish (runStrategy e) (plannedStrategies e l ms a) rtm"
  | (completes) ms a where "collectMetrics (getMetric e rtm) (config_metrics (config l)) = Inr ms"
      "analyzeMetrics ths ms = Inr a"
      "needsAdaptation (storeMetrics e l ms) a
         \<longrightarrow> \<not> throwsNullish (runStrategy e) (plannedStrategies e l ms a) rtm"
proof (cases rule: collectMetrics_cases [of "getMetric e rtm" "config_metrics (config l)"])
  case throws
  with sampling show ?thesis by blast
next
  case (returns ms)
  show ?thesis
  proof (cases "analyzeMetrics ths ms")
    case (Inl err)
    with analyzeMetrics_Inl [OF Inl] returns(1) analysis show ?thesis by blast
  next
    case (Inr a)
    with returns(1) applying completes show ?thesis by blast
  qed
qed

lemma never_throwsNullish:
  assumes "\<forall>s m. fst (exec s m) \<noteq> Inl Nullish"
  shows "\<not> throwsNullish exec ss rtm"
proof (induction ss arbitrary: rtm)
  case Nil
  show ?case by (simp add: throwsNullish_def)
next
  case (Cons s ss)
  obtain res rtm1 where r: "exec s rtm = (res, rtm1)" by (cases "exec s rtm")
  obtain rs fin where o: "strategyOutcomes exec ss rtm1 = (rs, fin)"
    by (cases "strategyOutcomes exec ss rtm1")
  from assms r have "res \<noteq> Inl Nullish" by (metis fst_conv)
  with Cons.IH [of rtm1] r o show ?case by (auto simp: throwsNullish_def)
qed

lemma hostEnv_getMetric: "getMetric (hostEnv rnd t) rtm n \<noteq> Inl Nullish"
  by (simp add: hostEnv_def getMetricValue_def)

lemma hostEnv_runStrategy: "fst (runStrategy (hostEnv rnd t) s m) \<noteq> Inl Nullish"
  by (simp add: hostEnv_def executeAdaptationStrategy_def Let_def)

lemma executeLoop_with_table:
  assumes "\<forall>n. getMetric e rtm n \<noteq> Inl Nullish"
    and "\<forall>s m. fst (runStrategy e s m) \<noteq> Inl Nullish"
  obtains ms a where "collectMetrics (getMetric e rtm) (config_metrics (config l)) = Inr ms"
      "analyzeMetrics (Some tab) ms = Inr a"
      "needsAdaptation (storeMetrics e l ms) a
         \<longrightarrow> \<not> throwsNullish (runStrategy e) (plannedStrategies e l ms a) rtm"
proof (cases rule: executeLoop_cases [where e = e and rtm = rtm and l = l and ths = "Some tab"])
  case sampling
  from assms(1) sampling show ?thesis
    by (cases rule: collectMetrics_cases [of "getMetric e rtm" "config_metrics (config l)"]) auto
next
  case (analysis ms)
  then show ?thesis by simp
next
  case (applying ms a)
  with never_throwsNullish [OF assms(2)] show ?thesis by blast
next
  case (completes ms a)
  with that show ?thesis by blast
qed

lemma executeLoop_summary:
  assumes "executeLoop e ths l hist rtm = (ev, l', hist', rtm')"
  shows "state l' = state l \<and> intervalId l' = intervalId l
     \<and> (if executed ev
         then executionCount l' = Suc (executionCount l)
            \<and> successRate (performance l') =
                 (successRate (performance l) * real (executionCount l) + 1)
                   / (real (executionCount l) + 1)
         else ev = LoopError (name l) TypeError \<and> executionCount l' = executionCount l
            \<and> improvementCount l' = improvementCount l \<and> performance l' = performance l
            \<and> adaptations l' = adaptations l)"
proof (cases rule: executeLoop_cases [where e = e and rtm = rtm and l = l and ths = ths])
  case sampling
  from executeLoop_sampling_throws [OF sampling, of ths hist] assms show ?thesis by auto
next
  case (analysis ms)
  from executeLoop_analysis_throws [OF analysis(1,2), of hist] assms show ?thesis
    by (auto simp: storeMetrics_def)
next
  case (applying ms a)
  from executeLoop_applying_throws [OF applying, of hist] assms show ?thesis
    by (auto simp: storeMetrics_def)
next
  case (completes ms a)
  note c = executeLoop_completes [OF completes assms]
  from c(1) have "executed ev" by simp
  with c(2,3,6,7) show ?thesis by simp
qed

lemma executeLoop_event:
  assumes "collectMetrics (getMetric e rtm) (config_metrics (config l)) = Inr ms"
    and "analyzeMetrics ths ms = Inr a"
    and "needsAdaptation (storeMetrics e l ms) a
           \<longrightarrow> \<not> throwsNullish (runStrategy e) (plannedStrategies e l ms a) rtm"
  shows "fst (executeLoop e ths l hist rtm) =
     LoopExecuted (name l) ms a (needsAdaptation (storeMetrics e l ms) a)
       (now_end e - now_start e)"
proof -
  obtain ev l' hist' rtm' where ex: "executeLoop e ths l hist rtm = (ev, l', hist', rtm')"
    by (cases "executeLoop e ths l hist rtm") auto
  from executeLoop_completes(1) [OF assms ex] ex show ?thesis by simp
qed

text \<open>
  The trend of the raw values in a run of \<open>executeLoop\<close>: the third cycle of the loop
  \<open>latency\<close> draws the response time 200 from the class's own metric source, finds no
  issue, and still decides to adapt.
\<close>

lemma third_cycle_adapts:
  "fst (executeLoop (hostEnv (4/10) 3000) (Some [(''response_time'', 1000)])
         (latency_loop\<lparr>metrics := [(1000, [(''response_time'', Some 450)]),
                                   (2000, [(''response_time'', Some 450)])]\<rparr>)
         [] \<lparr>responseTime = 0, throughput = 0, errorRate = 0, adaptationRate = 0,
              learningVelocity = 0\<rparr>)
   = LoopExecuted ''latency'' [(''response_time'', Some 200)]
       \<lparr>overall = Excellent, issues = [], score = Finite 1, recommendations = []\<rparr> True 0"
proof -
  let ?r = "\<lparr>responseTime = 0, throughput = 0, errorRate = 0, adaptationRate = 0,
              learningVelocity = 0\<rparr>"
  let ?e = "hostEnv (4/10) 3000"
  let ?l = "latency_loop\<lparr>metrics := [(1000, [(''response_time'', Some 450)]),
                                   (2000, [(''response_time'', Some 450)])]\<rparr>"
  let ?ms = "[(''response_time'', Some 200)]"
  let ?a = "\<lparr>overall = Excellent, issues = [], score = Finite 1, recommendations = []\<rparr>"
  have ms: "collectMetrics (getMetric ?e ?r) (config_metrics (config ?l)) = Inr ?ms"
    by (simp add: collectMetrics_def hostEnv_def getMetricValue_def latency_loop_def
        latency_config_def)
  have l1: "storeMetrics ?e ?l ?ms = latency_loop"
    by (simp add: storeMetrics_def latency_loop_def hostEnv_def)
  have an: "analyzeMetrics (Some [(''response_time'', 1000)]) ?ms = Inr ?a"
    by (simp add: evaluator_defs)
  have nd: "needsAdaptation latency_loop ?a = True"
    by (simp add: recent_latency calculateTrend_def calculateAverageScore_def
      needsAdaptation_def List.map_filter_def)
  have nt: "needsAdaptation (storeMetrics ?e ?l ?ms) ?a
      \<longrightarrow> \<not> throwsNullish (runStrategy ?e) (plannedStrategies ?e ?l ?ms ?a) ?r"
    by (simp add: never_throwsNullish hostEnv_runStrategy)
  have nm: "name ?l = ''latency''" by (simp add: latency_loop_def)
  have tm: "now_end ?e - now_start ?e = 0" by (simp add: hostEnv_def)
  from executeLoop_event [OF ms an nt, of "[]"] show ?thesis
    by (simp only: l1 nm tm nd)
qed







section \<open>The supervisor: properties\<close>

lemmas instance_defs = newSwarmFeedbackLoops_def initializeDefaultLoops_def
  createFeedbackLoop_def start_def stop_def startLoop_def stopLoop_def setInterval_def
  clearInterval_def startRealTimeMetrics_def replaced_while_active_def Let_def

lemma runLoop_length: "length (heap (runLoop e r s)) = length (heap s)"
  by (simp add: runLoop_def Let_def split: prod.splits)

lemma runLoop_count:
  assumes "r < length (heap s)"
    and "map_of (performanceThresholds s) (name (heap s ! r)) = Some (Some tab)"
    and "\<forall>n. getMetric e (realTimeMetrics s) n \<noteq> Inl Nullish"
    and "\<forall>st m. fst (runStrategy e st m) \<noteq> Inl Nullish"
  shows "executionCount (heap (runLoop e r s) ! r) = Suc (executionCount (heap s ! r))"
proof -
  obtain ev l' hist' rtm' where
    ex: "executeLoop e (Some tab) (heap s ! r) (improvementHistory s) (realTimeMetrics s)
           = (ev, l', hist', rtm')"
    by (cases "executeLoop e (Some tab) (heap s ! r) (improvementHistory s) (realTimeMetrics s)")
      auto
  from assms(3,4) obtain ms a where
    c: "collectMetrics (getMetric e (realTimeMetrics s)) (config_metrics (config (heap s ! r)))
          = Inr ms"
       "analyzeMetrics (Some tab) ms = Inr a"
       "needsAdaptation (storeMetrics e (heap s ! r) ms) a
          \<longrightarrow> \<not> throwsNullish (runStrategy e) (plannedStrategies e (heap s ! r) ms a)
                  (realTimeMetrics s)"
    by (blast intro: executeLoop_with_table [of e "realTimeMetrics s" "heap s ! r" tab])
  from executeLoop_completes(2) [OF c ex]
  have "executionCount l' = Suc (executionCount (heap s ! r))" .
  with assms(1,2) ex show ?thesis by (simp add: runLoop_def Let_def)
qed

lemma fresh_instance:
  "length (heap newSwarmFeedbackLoops) = 5
   \<and> name (heap newSwarmFeedbackLoops ! 0) = ''performance''
   \<and> executionCount (heap newSwarmFeedbackLoops ! 0) = 0
   \<and> map_of (performanceThresholds newSwarmFeedbackLoops) ''performance''
        = Some (Some [(''response_time'', 2000), (''throughput'', 10), (''error_rate'', 5/100)])"
proof -
  define obs where "obs = (\<lambda>s :: supervisor. (length (heap s), name (heap s ! 0),
      executionCount (heap s ! 0), map_of (performanceThresholds s) ''performance''))"
  have "obs newSwarmFeedbackLoops =
      (5, ''performance'', 0,
       Some (Some [(''response_time'', 2000), (''throughput'', 10), (''error_rate'', 5/100)]))"
    by (simp add: instance_defs obs_def)
  then show ?thesis by (simp add: obs_def)
qed

lemma started_instance:
  "map_of (activeLoops (start newSwarmFeedbackLoops)) ''performance'' = Some 0
   \<and> isRunning (start newSwarmFeedbackLoops)
   \<and> length (heap (start newSwarmFeedbackLoops)) = 5
   \<and> state (heap (start newSwarmFeedbackLoops) ! 0) = Active"
proof -
  define obs where "obs = (\<lambda>s :: supervisor. (map_of (activeLoops s) ''performance'',
      isRunning s, length (heap s), state (heap s ! 0)))"
  have "obs (start newSwarmFeedbackLoops) = (Some 0, True, 5, Active)"
    by (simp add: instance_defs obs_def)
  then show ?thesis by (simp add: obs_def)
qed

lemma stopped_instance:
  "map_of (activeLoops (stop replaced_while_active)) ''performance'' = Some 5
   \<and> \<not> isRunning (stop replaced_while_active)
   \<and> length (heap (stop replaced_while_active)) = 6
   \<and> name (heap (stop replaced_while_active) ! 0) = ''performance''
   \<and> state (heap (stop replaced_while_active) ! 0) = Active
   \<and> executionCount (heap (stop replaced_while_active) ! 0) = 0
   \<and> timers (stop replaced_while_active) = [(0, LoopTimer 0), (5, MetricsTimer)]
   \<and> map_of (performanceThresholds (stop replaced_while_active)) ''performance''
        = Some (config_threshold challenge_config)"
proof -
  define obs where "obs = (\<lambda>s :: supervisor. (map_of (activeLoops s) ''performance'', isRunning s,
      length (heap s), name (heap s ! 0), state (heap s ! 0), executionCount (heap s ! 0),
      timers s, map_of (performanceThresholds s) ''performance''))"
  have "obs (stop replaced_while_active) =
      (Some 5, False, 6, ''performance'', Active, 0, [(0, LoopTimer 0), (5, MetricsTimer)],
       Some (config_threshold challenge_config))"
    by (simp add: instance_defs obs_def)
  then show ?thesis by (simp add: obs_def)
qed

text \<open>
  C7 (as amended). Registering a loop under a name always succeeds and always replaces
  what the registry held under that name, whether the loop registered before is
  Inactive or Active: the name then refers to a new loop object with the given
  configuration, Inactive, with \<open>executionCount\<close> \<open>0\<close>, and the thresholds of the name
  are the new ones. No other name of the registry changes.
\<close>

theorem registering_always_replaces:
  assumes "createFeedbackLoop nm cfg s = (r, s')"
  shows "map_of (activeLoops s') nm = Some r
     \<and> r = length (heap s)
     \<and> length (heap s') = Suc (length (heap s))
     \<and> heap s' ! r =
         \<lparr>name = nm, config = cfg, state = Inactive, lastExecution = None,
          executionCount = 0, improvementCount = 0, metrics = [], adaptations = [],
          performance = \<lparr>averageExecutionTime = 0, successRate = 0, improvementRate = 0\<rparr>,
          intervalId = None\<rparr>
     \<and> map_of (performanceThresholds s') nm = Some (config_threshold cfg)
     \<and> (\<forall>m. m \<noteq> nm \<longrightarrow> map_of (activeLoops s') m = map_of (activeLoops s) m)"
  using assms by (auto simp: createFeedbackLoop_def Let_def update_conv')

theorem registering_always_replaces_witness:
  "map_of (activeLoops replaced_while_active) ''performance''
      = Some (fst (createFeedbackLoop ''performance'' challenge_config
                     (start newSwarmFeedbackLoops)))
   \<and> fst (createFeedbackLoop ''performance'' challenge_config (start newSwarmFeedbackLoops)) = 5
   \<and> state (heap replaced_while_active ! 5) = Inactive
   \<and> executionCount (heap replaced_while_active ! 5) = 0
   \<and> config (heap replaced_while_active ! 5) = challenge_config"
proof -
  have "createFeedbackLoop ''performance'' challenge_config (start newSwarmFeedbackLoops)
      = (fst (createFeedbackLoop ''performance'' challenge_config (start newSwarmFeedbackLoops)),
         replaced_while_active)"
    by (simp add: replaced_while_active_def)
  note w = registering_always_replaces [OF this]
  let ?r = "fst (createFeedbackLoop ''performance'' challenge_config
                   (start newSwarmFeedbackLoops))"
  from w have reg: "map_of (activeLoops replaced_while_active) ''performance'' = Some ?r"
    by blast
  from w have "?r = length (heap (start newSwarmFeedbackLoops))" by blast
  with started_instance have five: "?r = 5" by simp
  from w have "heap replaced_while_active ! ?r =
         \<lparr>name = ''performance'', config = challenge_config, state = Inactive,
          lastExecution = None, executionCount = 0, improvementCount = 0, metrics = [],
          adaptations = [],
          performance = \<lparr>averageExecutionTime = 0, successRate = 0, improvementRate = 0\<rparr>,
          intervalId = None\<rparr>" by blast
  then have "heap replaced_while_active ! 5 =
         \<lparr>name = ''performance'', config = challenge_config, state = Inactive,
          lastExecution = None, executionCount = 0, improvementCount = 0, metrics = [],
          adaptations = [],
          performance = \<lparr>averageExecutionTime = 0, successRate = 0, improvementRate = 0\<rparr>,
          intervalId = None\<rparr>" by (simp only: five)
  with reg five show ?thesis by simp
qed

text \<open>
  C7 as stated fails: on a started instance the loop \<open>performance\<close> is Active, and
  registering \<open>performance\<close> again returns a new loop and replaces the definition.
\<close>

theorem registering_counterexample:
  "map_of (activeLoops (start newSwarmFeedbackLoops)) ''performance'' = Some 0
   \<and> state (heap (start newSwarmFeedbackLoops) ! 0) = Active
   \<and> createFeedbackLoop ''performance'' challenge_config (start newSwarmFeedbackLoops)
       = (5, replaced_while_active)
   \<and> map_of (activeLoops replaced_while_active) ''performance'' = Some 5
   \<and> config (heap replaced_while_active ! 5) = challenge_config"
proof -
  have "createFeedbackLoop ''performance'' challenge_config (start newSwarmFeedbackLoops)
      = (length (heap (start newSwarmFeedbackLoops)), replaced_while_active)"
    by (simp add: replaced_while_active_def createFeedbackLoop_def Let_def)
  moreover have "map_of (activeLoops replaced_while_active) ''performance''
      = Some (length (heap (start newSwarmFeedbackLoops)))"
    by (simp add: replaced_while_active_def createFeedbackLoop_def Let_def update_conv')
  moreover have "config (heap replaced_while_active ! length (heap (start newSwarmFeedbackLoops)))
      = challenge_config"
    by (simp add: replaced_while_active_def createFeedbackLoop_def Let_def)
  ultimately show ?thesis using started_instance by simp
qed

text \<open>
  C8. \<open>stop\<close> clears the intervals of the loops the registry holds. A loop that was
  replaced in the registry while Active is not among them: after \<open>stop\<close> has returned
  its interval is still pending (with that of the real-time metrics, which \<open>stop\<close>
  never clears), and when it fires \<open>executeLoop\<close> runs and the loop's
  \<open>executionCount\<close> grows.
\<close>

theorem replaced_loop_runs_after_stop:
  "\<not> isRunning (stop replaced_while_active)
   \<and> map_of (activeLoops (stop replaced_while_active)) ''performance'' = Some 5
   \<and> name (heap (stop replaced_while_active) ! 0) = ''performance''
   \<and> state (heap (stop replaced_while_active) ! 0) = Active
   \<and> timers (stop replaced_while_active) = [(0, LoopTimer 0), (5, MetricsTimer)]
   \<and> executionCount (heap (stop replaced_while_active) ! 0) = 0
   \<and> executionCount (heap (fire 0 (hostTick (1/2) 5000) (stop replaced_while_active)) ! 0) = 1"
proof -
  note st = stopped_instance
  have "executionCount (heap (runLoop (hostEnv (1/2) 5000) 0 (stop replaced_while_active)) ! 0)
          = Suc (executionCount (heap (stop replaced_while_active) ! 0))"
    by (rule runLoop_count [where tab = "[(''response_time'', 1000), (''throughput'', 20),
                               (''error_rate'', 2/100)]"])
       (simp_all add: st challenge_config_def hostEnv_getMetric hostEnv_runStrategy)
  with st show ?thesis by (simp add: fire_def hostTick_def)
qed

lemma executeLoop_clean:
  assumes "executeLoop e ths l hist rtm = (ev, l', hist', rtm')" and "clean l"
  shows "clean l'"
  using executeLoop_summary [OF assms(1)] assms(2)
  by (cases "executed ev") (auto simp: clean_def)

lemma list_update_all:
  assumes "\<forall>l \<in> set xs. P l" and "P y"
  shows "\<forall>l \<in> set (xs[r := y]). P l"
  using assms set_update_subset_insert [of xs r y] by auto

lemma createFeedbackLoop_clean:
  assumes "all_clean s"
  shows "all_clean (snd (createFeedbackLoop nm cfg s))"
  using assms by (auto simp: all_clean_def createFeedbackLoop_def Let_def clean_def)

lemma startLoop_clean:
  assumes "all_clean s"
  shows "all_clean (startLoop r s)"
proof (cases "r < length (heap s) \<and> state (heap s ! r) \<noteq> Active")
  case False
  with assms show ?thesis by (auto simp: startLoop_def)
next
  case True
  from assms have all: "\<forall>l \<in> set (heap s). clean l" by (simp add: all_clean_def)
  with True have "clean (heap s ! r)" by simp
  then have "clean ((heap s ! r)\<lparr>state := Active, intervalId := Some (nextTimer s)\<rparr>)"
    by (simp add: clean_def)
  from list_update_all [where P = clean, OF all this] True show ?thesis
    by (simp add: all_clean_def startLoop_def setInterval_def)
qed

lemma stopLoop_clean:
  assumes "all_clean s"
  shows "all_clean (stopLoop r s)"
proof (cases "r < length (heap s) \<and> state (heap s ! r) \<noteq> Inactive")
  case False
  with assms show ?thesis by (auto simp: stopLoop_def)
next
  case True
  from assms have all: "\<forall>l \<in> set (heap s). clean l" by (simp add: all_clean_def)
  with True have c: "clean (heap s ! r)" by simp
  have 1: "clean ((heap s ! r)\<lparr>state := Inactive\<rparr>)" using c by (simp add: clean_def)
  have 2: "clean ((heap s ! r)\<lparr>state := Inactive, intervalId := None\<rparr>)"
    using c by (simp add: clean_def)
  from True list_update_all [where P = clean, OF all 1]
    list_update_all [where P = clean, OF all 2]
  show ?thesis
    by (auto simp: all_clean_def stopLoop_def clearInterval_def Let_def split: option.splits)
qed

lemma fold_preserves:
  assumes step: "\<And>r s. Q s \<Longrightarrow> Q (f r s)" and "Q s"
  shows "Q (fold f rs s)"
  using assms(2)
proof (induction rs arbitrary: s)
  case Nil
  then show ?case by simp
next
  case (Cons r rs)
  from Cons.prems have "Q (f r s)" by (rule step)
  then have "Q (fold f rs (f r s))" by (rule Cons.IH)
  then show ?case by simp
qed

lemma start_clean:
  assumes "all_clean s"
  shows "all_clean (start s)"
proof (cases "isRunning s")
  case True
  with assms show ?thesis by (simp add: start_def)
next
  case False
  have "all_clean (s\<lparr>isRunning := True\<rparr>)" using assms by (simp add: all_clean_def)
  then have "all_clean (fold startLoop (map snd (activeLoops s)) (s\<lparr>isRunning := True\<rparr>))"
    by (auto intro: fold_preserves [where Q = all_clean] startLoop_clean)
  with False show ?thesis
    by (simp add: all_clean_def start_def startRealTimeMetrics_def setInterval_def Let_def)
qed

lemma stop_clean:
  assumes "all_clean s"
  shows "all_clean (stop s)"
proof (cases "isRunning s")
  case False
  with assms show ?thesis by (simp add: stop_def)
next
  case True
  have "all_clean (s\<lparr>isRunning := False\<rparr>)" using assms by (simp add: all_clean_def)
  then have "all_clean (fold stopLoop (map snd (activeLoops s)) (s\<lparr>isRunning := False\<rparr>))"
    by (auto intro: fold_preserves [where Q = all_clean] stopLoop_clean)
  with True show ?thesis by (simp add: stop_def Let_def)
qed

lemma runLoop_clean:
  assumes "all_clean s"
  shows "all_clean (runLoop e r s)"
proof (cases "r < length (heap s)")
  case False
  with assms show ?thesis by (simp add: runLoop_def)
next
  case True
  from assms have all: "\<forall>l \<in> set (heap s). clean l" by (simp add: all_clean_def)
  let ?ths = "case map_of (performanceThresholds s) (name (heap s ! r)) of
                None \<Rightarrow> None | Some t \<Rightarrow> t"
  obtain ev l' hist' rtm' where
    ex: "executeLoop e ?ths (heap s ! r) (improvementHistory s) (realTimeMetrics s)
           = (ev, l', hist', rtm')"
    by (cases "executeLoop e ?ths (heap s ! r) (improvementHistory s) (realTimeMetrics s)") auto
  from True all have "clean (heap s ! r)" by simp
  with ex have "clean l'" by (rule executeLoop_clean)
  from list_update_all [where P = clean, OF all this] True ex show ?thesis
    by (simp add: all_clean_def runLoop_def Let_def)
qed

lemma fire_clean:
  assumes "all_clean s"
  shows "all_clean (fire tid t s)"
proof (cases "map_of (timers s) tid")
  case None
  with assms show ?thesis by (simp add: fire_def)
next
  case (Some tm)
  show ?thesis
  proof (cases tm)
    case (LoopTimer r)
    with Some runLoop_clean [OF assms] show ?thesis by (simp add: fire_def)
  next
    case MetricsTimer
    with Some assms show ?thesis
      by (simp add: all_clean_def fire_def updateRealTimeMetrics_def Let_def)
  qed
qed

lemma new_clean: "all_clean newSwarmFeedbackLoops"
proof -
  have "all_clean \<lparr>activeLoops = [], performanceThresholds = [], improvementHistory = [],
        realTimeMetrics = \<lparr>responseTime = 0, throughput = 0, errorRate = 0,
                            adaptationRate = 0, learningVelocity = 0\<rparr>,
        isRunning = False, metricsInterval = None, heap = [], timers = [], nextTimer = 0\<rparr>"
    by (simp add: all_clean_def)
  then show ?thesis
    unfolding newSwarmFeedbackLoops_def initializeDefaultLoops_def Let_def
    by (intro createFeedbackLoop_clean)
qed

lemma reachable_clean:
  assumes "reachable s"
  shows "all_clean s"
  using assms
proof (induction rule: reachable.induct)
  case constructed
  show ?case by (rule new_clean)
next
  case (created s nm cfg)
  from created.IH show ?case by (rule createFeedbackLoop_clean)
next
  case (started s)
  from started.IH show ?case by (rule start_clean)
next
  case (stopped s)
  from stopped.IH show ?case by (rule stop_clean)
next
  case (loopStarted s r)
  from loopStarted.IH show ?case by (rule startLoop_clean)
next
  case (loopStopped s r)
  from loopStopped.IH show ?case by (rule stopLoop_clean)
next
  case (loopExecuted s e r)
  from loopExecuted.IH show ?case by (rule runLoop_clean)
next
  case (timerFired s tid t)
  from timerFired.IH show ?case by (rule fire_clean)
qed

text \<open>
  C10. In every state an instance can reach, a cycle that completes leaves the loop's
  \<open>performance.successRate\<close> at \<open>1\<close>, and a cycle that throws leaves \<open>performance\<close>
  untouched; so every loop that has completed a cycle has the recorded success rate
  \<open>1\<close>.
\<close>

theorem recorded_success_rate_is_one:
  assumes "reachable s" and "r < length (heap s)"
    and "executeLoop e ths (heap s ! r) hist rtm = (ev, l', hist', rtm')"
  shows "(if executed ev then successRate (performance l') = 1
          else performance l' = performance (heap s ! r))
       \<and> (\<forall>l \<in> set (heap s). 0 < executionCount l \<longrightarrow> successRate (performance l) = 1)"
proof -
  from reachable_clean [OF assms(1)] have all: "\<forall>l \<in> set (heap s). clean l"
    by (simp add: all_clean_def)
  with assms(2) have c: "clean (heap s ! r)" by simp
  have "if executed ev then successRate (performance l') = 1
        else performance l' = performance (heap s ! r)"
    using executeLoop_summary [OF assms(3)] c
    by (cases "executed ev") (auto simp: clean_def)
  moreover from all have
    "\<forall>l \<in> set (heap s). 0 < executionCount l \<longrightarrow> successRate (performance l) = 1"
    by (auto simp: clean_def)
  ultimately show ?thesis by simp
qed

theorem recorded_success_rate_is_one_witness:
  "reachable (runLoop (hostEnv (1/2) 5000) 0 newSwarmFeedbackLoops)
   \<and> executionCount (heap (runLoop (hostEnv (1/2) 5000) 0 newSwarmFeedbackLoops) ! 0) = 1
   \<and> successRate (performance (heap (runLoop (hostEnv (1/2) 5000) 0 newSwarmFeedbackLoops) ! 0)) = 1
   \<and> executed (fst (executeLoop (hostEnv (1/2) 10000) (Some [(''response_time'', 2000)])
         (heap (runLoop (hostEnv (1/2) 5000) 0 newSwarmFeedbackLoops) ! 0) []
         (realTimeMetrics newSwarmFeedbackLoops)))
   \<and> successRate (performance (fst (snd
         (executeLoop (hostEnv (1/2) 10000) (Some [(''response_time'', 2000)])
           (heap (runLoop (hostEnv (1/2) 5000) 0 newSwarmFeedbackLoops) ! 0) []
           (realTimeMetrics newSwarmFeedbackLoops))))) = 1"
proof -
  let ?s = "runLoop (hostEnv (1/2) 5000) 0 newSwarmFeedbackLoops"
  let ?x = "executeLoop (hostEnv (1/2) 10000) (Some [(''response_time'', 2000)])
         (heap ?s ! 0) [] (realTimeMetrics newSwarmFeedbackLoops)"
  have reach: "reachable ?s" by (intro reachable.loopExecuted reachable.constructed)
  have len: "0 < length (heap ?s)" using fresh_instance by (simp add: runLoop_length)
  have cnt: "executionCount (heap ?s ! 0) = 1"
    using runLoop_count [of 0 newSwarmFeedbackLoops _ "hostEnv (1/2) 5000"] fresh_instance
    by (simp add: hostEnv_getMetric hostEnv_runStrategy)
  obtain ev l' hist' rtm' where ex: "?x = (ev, l', hist', rtm')" by (cases ?x) auto
  obtain ms a where
    c: "collectMetrics (getMetric (hostEnv (1/2) 10000) (realTimeMetrics newSwarmFeedbackLoops))
          (config_metrics (config (heap ?s ! 0))) = Inr ms"
       "analyzeMetrics (Some [(''response_time'', 2000)]) ms = Inr a"
       "needsAdaptation (storeMetrics (hostEnv (1/2) 10000) (heap ?s ! 0) ms) a
          \<longrightarrow> \<not> throwsNullish (runStrategy (hostEnv (1/2) 10000))
                  (plannedStrategies (hostEnv (1/2) 10000) (heap ?s ! 0) ms a)
                  (realTimeMetrics newSwarmFeedbackLoops)"
    by (rule executeLoop_with_table [of "hostEnv (1/2) 10000"
          "realTimeMetrics newSwarmFeedbackLoops" "heap ?s ! 0" "[(''response_time'', 2000)]"])
       (simp_all add: hostEnv_getMetric hostEnv_runStrategy)
  have ran: "executed (fst ?x)"
    using executeLoop_event [OF c, of "[]"] by simp
  from recorded_success_rate_is_one [OF reach len ex] len cnt ran ex
  have "successRate (performance (heap ?s ! 0)) = 1" "successRate (performance l') = 1"
    by simp_all
  with reach cnt ran ex show ?thesis by simp
qed

subsection \<open>The loops of the registry after \<open>stop\<close>\<close>

lemma set_delete: "set (AList.delete k al) = {p \<in> set al. fst p \<noteq> k}"
  by (induction al) auto

lemma executeLoop_state:
  assumes "executeLoop e ths l hist rtm = (ev, l', hist', rtm')"
  shows "state l' = state l \<and> intervalId l' = intervalId l"
  using executeLoop_summary [OF assms] by simp

lemma createFeedbackLoop_owned:
  assumes "timers_owned s"
  shows "timers_owned (snd (createFeedbackLoop nm cfg s))"
  using assms by (fastforce simp: timers_owned_def createFeedbackLoop_def Let_def nth_append)

lemma startLoop_owned:
  assumes "timers_owned s"
  shows "timers_owned (startLoop r s)"
proof (cases "r < length (heap s) \<and> state (heap s ! r) \<noteq> Active")
  case False
  with assms show ?thesis by (auto simp: startLoop_def)
next
  case True
  with assms show ?thesis
    by (auto simp: timers_owned_def startLoop_def setInterval_def nth_list_update)
qed

lemma stopLoop_owned:
  assumes "timers_owned s"
  shows "timers_owned (stopLoop r s)"
proof (cases "r < length (heap s) \<and> state (heap s ! r) \<noteq> Inactive")
  case False
  with assms show ?thesis by (auto simp: stopLoop_def)
next
  case True
  show ?thesis
  proof (cases "intervalId (heap s ! r)")
    case None
    with True assms show ?thesis
      by (fastforce simp: timers_owned_def stopLoop_def Let_def nth_list_update)
  next
    case (Some tid)
    with True assms show ?thesis
      by (fastforce simp: timers_owned_def stopLoop_def clearInterval_def Let_def
          nth_list_update set_delete)
  qed
qed

lemma stopLoop_silent_self:
  assumes "timers_owned s"
  shows "silent r (stopLoop r s)"
proof (cases "r < length (heap s) \<and> state (heap s ! r) \<noteq> Inactive")
  case False
  then have "stopLoop r s = s" by (auto simp: stopLoop_def)
  moreover from False assms have "silent r s"
    by (auto simp: silent_def timers_owned_def)
  ultimately show ?thesis by simp
next
  case True
  show ?thesis
  proof (cases "intervalId (heap s ! r)")
    case None
    with True assms show ?thesis
      by (fastforce simp: silent_def timers_owned_def stopLoop_def Let_def)
  next
    case (Some tid)
    with True assms show ?thesis
      by (fastforce simp: silent_def timers_owned_def stopLoop_def clearInterval_def Let_def
          set_delete)
  qed
qed

lemma stopLoop_silent_other:
  assumes "silent r s"
  shows "silent r (stopLoop r' s)"
  using assms
  by (auto simp: silent_def stopLoop_def clearInterval_def Let_def set_delete
      split: option.splits)

lemma fold_stopLoop_owned:
  "timers_owned s \<Longrightarrow> timers_owned (fold stopLoop rs s)"
  by (induction rs arbitrary: s) (simp_all add: stopLoop_owned)

lemma fold_stopLoop_silent_kept:
  "silent r s \<Longrightarrow> silent r (fold stopLoop rs s)"
  by (induction rs arbitrary: s) (simp_all add: stopLoop_silent_other)

lemma fold_stopLoop_silent:
  assumes "timers_owned s" and "r \<in> set rs"
  shows "silent r (fold stopLoop rs s)"
  using assms
proof (induction rs arbitrary: s)
  case Nil
  then show ?case by simp
next
  case (Cons x xs)
  show ?case
  proof (cases "x = r")
    case True
    from Cons.prems(1) have "silent r (stopLoop r s)" by (rule stopLoop_silent_self)
    then have "silent r (fold stopLoop xs (stopLoop r s))" by (rule fold_stopLoop_silent_kept)
    with True show ?thesis by simp
  next
    case False
    with Cons.prems have "r \<in> set xs" by simp
    moreover from Cons.prems(1) have "timers_owned (stopLoop x s)" by (rule stopLoop_owned)
    ultimately have "silent r (fold stopLoop xs (stopLoop x s))" by (rule Cons.IH [rotated])
    then show ?thesis by simp
  qed
qed


lemma start_owned:
  assumes "timers_owned s"
  shows "timers_owned (start s)"
proof (cases "isRunning s")
  case True
  with assms show ?thesis by (simp add: start_def)
next
  case False
  have "timers_owned (s\<lparr>isRunning := True\<rparr>)" using assms by (simp add: timers_owned_def)
  then have "timers_owned (fold startLoop (map snd (activeLoops s)) (s\<lparr>isRunning := True\<rparr>))"
    by (auto intro: fold_preserves [where Q = timers_owned] startLoop_owned)
  with False show ?thesis
    by (auto simp: timers_owned_def start_def startRealTimeMetrics_def setInterval_def Let_def)
qed

lemma stop_owned:
  assumes "timers_owned s"
  shows "timers_owned (stop s)"
proof (cases "isRunning s")
  case False
  with assms show ?thesis by (simp add: stop_def)
next
  case True
  have "timers_owned (s\<lparr>isRunning := False\<rparr>)" using assms by (simp add: timers_owned_def)
  then have "timers_owned (fold stopLoop (map snd (activeLoops s)) (s\<lparr>isRunning := False\<rparr>))"
    by (rule fold_stopLoop_owned)
  with True show ?thesis by (simp add: stop_def Let_def)
qed

lemma runLoop_owned:
  assumes "timers_owned s"
  shows "timers_owned (runLoop e r s)"
proof (cases "r < length (heap s)")
  case False
  with assms show ?thesis by (simp add: runLoop_def)
next
  case True
  let ?ths = "case map_of (performanceThresholds s) (name (heap s ! r)) of
                None \<Rightarrow> None | Some t \<Rightarrow> t"
  obtain ev l' hist' rtm' where
    ex: "executeLoop e ?ths (heap s ! r) (improvementHistory s) (realTimeMetrics s)
           = (ev, l', hist', rtm')"
    by (cases "executeLoop e ?ths (heap s ! r) (improvementHistory s) (realTimeMetrics s)") auto
  from executeLoop_state [OF ex] have "state l' = state (heap s ! r)"
    "intervalId l' = intervalId (heap s ! r)" by simp_all
  with assms True ex show ?thesis
    by (auto simp: timers_owned_def runLoop_def Let_def nth_list_update)
qed

lemma fire_timers: "timers (fire tid t s) = timers s"
  by (auto simp: fire_def runLoop_def updateRealTimeMetrics_def Let_def
      split: option.splits timer.splits prod.splits)

lemma fire_owned:
  assumes "timers_owned s"
  shows "timers_owned (fire tid t s)"
proof (cases "map_of (timers s) tid")
  case None
  with assms show ?thesis by (simp add: fire_def)
next
  case (Some tm)
  show ?thesis
  proof (cases tm)
    case (LoopTimer r)
    with Some runLoop_owned [OF assms] show ?thesis by (simp add: fire_def)
  next
    case MetricsTimer
    with Some assms show ?thesis
      by (simp add: timers_owned_def fire_def updateRealTimeMetrics_def Let_def)
  qed
qed

lemma new_owned: "timers_owned newSwarmFeedbackLoops"
proof -
  have "timers_owned \<lparr>activeLoops = [], performanceThresholds = [], improvementHistory = [],
        realTimeMetrics = \<lparr>responseTime = 0, throughput = 0, errorRate = 0,
                            adaptationRate = 0, learningVelocity = 0\<rparr>,
        isRunning = False, metricsInterval = None, heap = [], timers = [], nextTimer = 0\<rparr>"
    by (simp add: timers_owned_def)
  then show ?thesis
    unfolding newSwarmFeedbackLoops_def initializeDefaultLoops_def Let_def
    by (intro createFeedbackLoop_owned)
qed

lemma reachable_owned:
  assumes "reachable s"
  shows "timers_owned s"
  using assms
proof (induction rule: reachable.induct)
  case constructed
  show ?case by (rule new_owned)
next
  case (created s nm cfg)
  from created.IH show ?case by (rule createFeedbackLoop_owned)
next
  case (started s)
  from started.IH show ?case by (rule start_owned)
next
  case (stopped s)
  from stopped.IH show ?case by (rule stop_owned)
next
  case (loopStarted s r)
  from loopStarted.IH show ?case by (rule startLoop_owned)
next
  case (loopStopped s r)
  from loopStopped.IH show ?case by (rule stopLoop_owned)
next
  case (loopExecuted s e r)
  from loopExecuted.IH show ?case by (rule runLoop_owned)
next
  case (timerFired s tid t)
  from timerFired.IH show ?case by (rule fire_owned)
qed

lemma fire_silent:
  assumes "silent r s"
  shows "silent r (fire tid t s) \<and> heap (fire tid t s) ! r = heap s ! r"
proof -
  have 1: "silent r (fire tid t s)" using assms by (simp add: silent_def fire_timers)
  have 2: "heap (fire tid t s) ! r = heap s ! r"
  proof (cases "map_of (timers s) tid")
    case None
    then show ?thesis by (simp add: fire_def)
  next
    case (Some tm)
    show ?thesis
    proof (cases tm)
      case (LoopTimer r')
      with Some have "(tid, LoopTimer r') \<in> set (timers s)" by (simp add: map_of_SomeD)
      with assms have "r' \<noteq> r" by (auto simp: silent_def)
      with Some LoopTimer show ?thesis
        by (simp add: fire_def runLoop_def Let_def split: prod.splits)
    next
      case MetricsTimer
      with Some show ?thesis by (simp add: fire_def updateRealTimeMetrics_def Let_def)
    qed
  qed
  from 1 2 show ?thesis by simp
qed

lemma fires_silent:
  assumes "silent r s"
  shows "heap (fold (\<lambda>(tid, t). fire tid t) evs s) ! r = heap s ! r"
  using assms
proof (induction evs arbitrary: s)
  case Nil
  show ?case by simp
next
  case (Cons ev evs)
  obtain tid t where ev: "ev = (tid, t)" by (cases ev)
  from fire_silent [OF Cons.prems, of tid t]
  have "silent r (fire tid t s)" "heap (fire tid t s) ! r = heap s ! r" by simp_all
  with Cons.IH [of "fire tid t s"] ev show ?case by simp
qed

text \<open>
  What \<open>stop\<close> does achieve: on a running instance, in any state it can reach, every loop
  object the registry holds is without a pending interval once \<open>stop\<close> has returned, and
  whatever intervals fire afterwards leave that loop object as it is.
\<close>

lemma stop_silences_registered:
  assumes "reachable s" and "isRunning s" and "(nm, r) \<in> set (activeLoops s)"
  shows "silent r (stop s)
       \<and> heap (fold (\<lambda>(tid, t). fire tid t) evs (stop s)) ! r = heap (stop s) ! r"
proof -
  from assms(1) have "timers_owned s" by (rule reachable_owned)
  then have "timers_owned (s\<lparr>isRunning := False\<rparr>)" by (simp add: timers_owned_def)
  moreover from assms(3) have "r \<in> set (map snd (activeLoops s))" by force
  ultimately have "silent r (fold stopLoop (map snd (activeLoops s)) (s\<lparr>isRunning := False\<rparr>))"
    by (rule fold_stopLoop_silent)
  with assms(2) have "silent r (stop s)" by (simp add: stop_def Let_def)
  with fires_silent [of r "stop s" evs] show ?thesis by simp
qed

end
